theory Spec2Isabelle
  imports Main
begin

section \<open>Python values, exceptions and loops\<close>

text \<open>
  The program is a single Python class, \<open>RCPSPInventoryProblem\<close>, in
  \<open>rcpsp_inv_problem.py\<close>. Python integers are unbounded, so they are \<open>int\<close>.
  The only exceptions the class can raise are \<open>ValueError\<close> (the explicit shape check,
  \<open>max()\<close> of an empty sequence, \<open>int()\<close> of a malformed token) and \<open>IndexError\<close>
  (a subscript out of range). A computation returns \<open>Inl\<close> of the exception or \<open>Inr\<close>
  of its value.
\<close>

datatype py_error = ValueError string | IndexError

type_synonym 'a result = "py_error + 'a"

definition res_bind :: "'a result \<Rightarrow> ('a \<Rightarrow> 'b result) \<Rightarrow> 'b result" where
  "res_bind m f = (case m of Inl e \<Rightarrow> Inl e | Inr x \<Rightarrow> f x)"

definition is_error :: "'a result \<Rightarrow> bool" where
  "is_error m = (case m of Inl e \<Rightarrow> True | Inr x \<Rightarrow> False)"

text \<open>
  \<open>xs[i]\<close>: an index below zero counts from the end of the list, and an index outside
  \<open>-len(xs) \<le> i < len(xs)\<close> raises \<open>IndexError\<close>.
\<close>

definition py_get :: "'a list \<Rightarrow> int \<Rightarrow> 'a result" where
  "py_get xs i =
     (let j = (if i < 0 then i + int (length xs) else i)
      in if j < 0 \<or> int (length xs) \<le> j then Inl IndexError else Inr (xs ! nat j))"

text \<open>\<open>xs[i] = v\<close>, with the same index rule.\<close>

definition py_set :: "'a list \<Rightarrow> int \<Rightarrow> 'a \<Rightarrow> 'a list result" where
  "py_set xs i v =
     (let j = (if i < 0 then i + int (length xs) else i)
      in if j < 0 \<or> int (length xs) \<le> j then Inl IndexError else Inr (xs[nat j := v]))"

text \<open>\<open>range(n)\<close>: empty when \<open>n \<le> 0\<close>.\<close>

definition py_range :: "int \<Rightarrow> int list" where
  "py_range n = map int [0..<nat n]"

text \<open>
  \<open>for x in xs: body\<close>, where the body updates the loop's variables \<open>s\<close>; an exception
  in the body leaves the loop.
\<close>

fun for_loop :: "'a list \<Rightarrow> ('a \<Rightarrow> 's \<Rightarrow> 's result) \<Rightarrow> 's \<Rightarrow> 's result" where
  "for_loop [] body s = Inr s"
| "for_loop (x # xs) body s =
     (case body x s of Inl e \<Rightarrow> Inl e | Inr s' \<Rightarrow> for_loop xs body s')"

text \<open>The list comprehension \<open>[f(x) for x in xs]\<close>; also a generator consumed in full.\<close>

fun list_comp :: "('a \<Rightarrow> 'b result) \<Rightarrow> 'a list \<Rightarrow> 'b list result" where
  "list_comp f [] = Inr []"
| "list_comp f (x # xs) =
     (case f x of Inl e \<Rightarrow> Inl e
      | Inr y \<Rightarrow> (case list_comp f xs of Inl e \<Rightarrow> Inl e | Inr ys \<Rightarrow> Inr (y # ys)))"

text \<open>
  \<open>max(...)\<close> of a sequence: \<open>ValueError\<close> when it is empty (the wording of the
  message depends on the interpreter's version).
\<close>

definition py_max :: "int list \<Rightarrow> int result" where
  "py_max xs =
     (case xs of [] \<Rightarrow> Inl (ValueError ''max() arg is an empty sequence'')
      | x # rest \<Rightarrow> Inr (fold max rest x))"

section \<open>The instance\<close>

text \<open>
  The attributes that \<open>__init__\<close> and \<open>_load_instance\<close> set on \<open>self\<close>. The three
  counts are whatever integers the first line of the file holds, so they are \<open>int\<close>.
\<close>

record rcpsp_instance =
  nb_tasks :: int
  nb_resources :: int
  nb_inventories :: int
  capacity :: "int list"
  init_level :: "int list"
  duration :: "int list"
  weight :: "int list list"
  start_cons :: "int list list"
  end_prod :: "int list list"
  nb_successors :: "int list"
  successors :: "int list list"
  horizon :: int
  penalty_multiplier :: int

section \<open>evaluate\_solution\<close>

text \<open>
  The body of the precedence loop for task \<open>i\<close> (source lines 112 to 115):
  \<open>finish_i = solution[i] + self.duration[i]\<close>, then one pass over
  \<open>self.successors[i]\<close>.
\<close>

definition precedence_succ :: "int list \<Rightarrow> int \<Rightarrow> int \<Rightarrow> int \<Rightarrow> int result" where
  "precedence_succ solution finish_i succ penalty =
     res_bind (py_get solution succ) (\<lambda>s_succ.
       if s_succ < finish_i then Inr (penalty + (finish_i - s_succ)) else Inr penalty)"

definition precedence_task :: "rcpsp_instance \<Rightarrow> int list \<Rightarrow> int \<Rightarrow> int \<Rightarrow> int result" where
  "precedence_task self solution i penalty =
     res_bind (py_get solution i) (\<lambda>s_i.
     res_bind (py_get (duration self) i) (\<lambda>d_i.
     res_bind (py_get (successors self) i) (\<lambda>succs.
       for_loop succs (precedence_succ solution (s_i + d_i)) penalty)))"

definition precedence_loop :: "rcpsp_instance \<Rightarrow> int list \<Rightarrow> int \<Rightarrow> int result" where
  "precedence_loop self solution penalty =
     for_loop (py_range (nb_tasks self)) (precedence_task self solution) penalty"

text \<open>Source line 118: \<open>max(solution[i] + self.duration[i] for i in range(self.nb_tasks))\<close>.\<close>

definition finish_time :: "rcpsp_instance \<Rightarrow> int list \<Rightarrow> int \<Rightarrow> int result" where
  "finish_time self solution i =
     res_bind (py_get solution i) (\<lambda>s_i.
     res_bind (py_get (duration self) i) (\<lambda>d_i. Inr (s_i + d_i)))"

definition compute_makespan :: "rcpsp_instance \<Rightarrow> int list \<Rightarrow> int result" where
  "compute_makespan self solution =
     res_bind (list_comp (finish_time self solution) (py_range (nb_tasks self))) py_max"

text \<open>
  Source lines 121 to 129. The chained comparison
  \<open>solution[i] <= t < solution[i] + self.duration[i]\<close> reads the duration only when its
  first half holds, and the weight is read only for an active task.
\<close>

definition usage_task :: "rcpsp_instance \<Rightarrow> int list \<Rightarrow> int \<Rightarrow> int \<Rightarrow> int \<Rightarrow> int \<Rightarrow> int result" where
  "usage_task self solution t r i usage =
     res_bind (py_get solution i) (\<lambda>s_i.
       if s_i \<le> t then
         res_bind (py_get (duration self) i) (\<lambda>d_i.
           if t < s_i + d_i then
             res_bind (py_get (weight self) i) (\<lambda>w_i.
             res_bind (py_get w_i r) (\<lambda>w. Inr (usage + w)))
           else Inr usage)
       else Inr usage)"

definition usage_at :: "rcpsp_instance \<Rightarrow> int list \<Rightarrow> int \<Rightarrow> int \<Rightarrow> int result" where
  "usage_at self solution t r =
     for_loop (py_range (nb_tasks self)) (usage_task self solution t r) 0"

definition renewable_step :: "rcpsp_instance \<Rightarrow> int list \<Rightarrow> int \<Rightarrow> int \<Rightarrow> int \<Rightarrow> int result" where
  "renewable_step self solution t r penalty =
     res_bind (usage_at self solution t r) (\<lambda>usage.
     res_bind (py_get (capacity self) r) (\<lambda>cap.
       if usage > cap then Inr (penalty + (usage - cap)) else Inr penalty))"

definition renewable_loop :: "rcpsp_instance \<Rightarrow> int list \<Rightarrow> int \<Rightarrow> int \<Rightarrow> int result" where
  "renewable_loop self solution makespan penalty =
     for_loop (py_range makespan)
       (\<lambda>t. for_loop (py_range (nb_resources self)) (renewable_step self solution t))
       penalty"

text \<open>Source lines 132 to 142.\<close>

definition inventory_task :: "rcpsp_instance \<Rightarrow> int list \<Rightarrow> int \<Rightarrow> int \<Rightarrow> int \<Rightarrow> int \<Rightarrow> int result" where
  "inventory_task self solution t r i inventory =
     res_bind (py_get solution i) (\<lambda>s_i.
     res_bind (py_get (duration self) i) (\<lambda>d_i.
     res_bind
       (if s_i + d_i \<le> t then
          res_bind (py_get (end_prod self) i) (\<lambda>p_i.
          res_bind (py_get p_i r) (\<lambda>p. Inr (inventory + p)))
        else Inr inventory) (\<lambda>inventory.
       if s_i \<le> t then
         res_bind (py_get (start_cons self) i) (\<lambda>c_i.
         res_bind (py_get c_i r) (\<lambda>c. Inr (inventory - c)))
       else Inr inventory)))"

definition inventory_at :: "rcpsp_instance \<Rightarrow> int list \<Rightarrow> int \<Rightarrow> int \<Rightarrow> int result" where
  "inventory_at self solution t r =
     res_bind (py_get (init_level self) r) (\<lambda>init.
       for_loop (py_range (nb_tasks self)) (inventory_task self solution t r) init)"

definition inventory_step :: "rcpsp_instance \<Rightarrow> int list \<Rightarrow> int \<Rightarrow> int \<Rightarrow> int \<Rightarrow> int result" where
  "inventory_step self solution t r penalty =
     res_bind (inventory_at self solution t r) (\<lambda>inventory.
       if inventory < 0 then Inr (penalty + abs inventory) else Inr penalty)"

definition inventory_loop :: "rcpsp_instance \<Rightarrow> int list \<Rightarrow> int \<Rightarrow> int \<Rightarrow> int result" where
  "inventory_loop self solution makespan penalty =
     for_loop (py_range makespan)
       (\<lambda>t. for_loop (py_range (nb_inventories self)) (inventory_step self solution t))
       penalty"

definition shape_message :: string where
  "shape_message = ''Solution must have a start time for each task.''"

definition evaluate_solution :: "rcpsp_instance \<Rightarrow> int list \<Rightarrow> int result" where
  "evaluate_solution self solution =
     (if int (length solution) \<noteq> nb_tasks self then Inl (ValueError shape_message)
      else
        res_bind (precedence_loop self solution 0) (\<lambda>penalty.
        res_bind (compute_makespan self solution) (\<lambda>makespan.
        res_bind (renewable_loop self solution makespan penalty) (\<lambda>penalty.
        res_bind (inventory_loop self solution makespan penalty) (\<lambda>penalty.
          Inr (makespan + penalty_multiplier self * penalty))))))"

section \<open>\_load\_instance and \_\_init\_\_\<close>

text \<open>
  The file is given as the list that \<open>f.readlines()\<close> returns; opening the file and
  resolving its path are outside the model. A character is a code point below 256.

  \<open>line.split()\<close> cuts a line at runs of whitespace and drops empty pieces. Below 256
  the whitespace of a Python \<open>str\<close> is: tab, line feed, vertical tab, form feed,
  carriage return, the four separators 0x1C to 0x1F, space, 0x85 and 0xA0.
\<close>

definition is_space :: "char \<Rightarrow> bool" where
  "is_space c = (c \<in> {CHR 0x09, CHR 0x0A, CHR 0x0B, CHR 0x0C, CHR 0x0D, CHR 0x1C, CHR 0x1D,
                        CHR 0x1E, CHR 0x1F, CHR 0x20, CHR 0x85, CHR 0xA0})"

fun split_from :: "string \<Rightarrow> string \<Rightarrow> string list" where
  "split_from word [] = (if word = [] then [] else [word])"
| "split_from word (c # cs) =
     (if is_space c then (if word = [] then split_from [] cs else word # split_from [] cs)
      else split_from (word @ [c]) cs)"

definition py_split :: "string \<Rightarrow> string list" where
  "py_split line = split_from [] line"

text \<open>
  \<open>int(token)\<close> in base 10: an optional sign, then decimal digits, where single
  underscores may stand between two digits; anything else raises \<open>ValueError\<close>. (The
  interpreter's limit on the number of digits is not modelled.)
\<close>

definition digit_of :: "char \<Rightarrow> int option" where
  "digit_of c =
     (let k = (of_char c :: nat) in if 48 \<le> k \<and> k \<le> 57 then Some (int k - 48) else None)"

fun digits_value :: "bool \<Rightarrow> int \<Rightarrow> string \<Rightarrow> int option" where
  "digits_value after_digit acc [] = (if after_digit then Some acc else None)"
| "digits_value after_digit acc (c # cs) =
     (if c = CHR ''_'' then (if after_digit then digits_value False acc cs else None)
      else (case digit_of c of None \<Rightarrow> None
            | Some d \<Rightarrow> digits_value True (10 * acc + d) cs))"

definition py_int :: "string \<Rightarrow> int result" where
  "py_int token =
     (let (sign, body) =
        (case token of
           c # cs \<Rightarrow> (if c = CHR ''-'' then (- 1, cs) else if c = CHR ''+'' then (1, cs)
                      else (1, token))
         | [] \<Rightarrow> (1, token))
      in case digits_value False 0 body of
           None \<Rightarrow> Inl (ValueError ''invalid literal for int() with base 10'')
         | Some v \<Rightarrow> Inr (sign * v))"

text \<open>\<open>int(tokens[k])\<close>.\<close>

definition int_at :: "string list \<Rightarrow> int \<Rightarrow> int result" where
  "int_at tokens k = res_bind (py_get tokens k) py_int"

text \<open>
  The body of the task loop (source lines 78 to 90) for task \<open>i\<close>. Each assignment
  \<open>self.field[i] = value\<close> evaluates its right-hand side first.
\<close>

definition load_task :: "string list \<Rightarrow> int \<Rightarrow> rcpsp_instance \<Rightarrow> rcpsp_instance result" where
  "load_task lines i self =
     res_bind (py_get lines (i + 2)) (\<lambda>line.
     let tokens = py_split line in
     res_bind (int_at tokens 0) (\<lambda>d.
     res_bind (py_set (duration self) i d) (\<lambda>duration'.
     res_bind (list_comp (\<lambda>r. int_at tokens (r + 1)) (py_range (nb_resources self))) (\<lambda>w.
     res_bind (py_set (weight self) i w) (\<lambda>weight'.
     res_bind (list_comp (\<lambda>r. int_at tokens (2 * r + nb_resources self + 1))
                 (py_range (nb_inventories self))) (\<lambda>c.
     res_bind (py_set (start_cons self) i c) (\<lambda>start_cons'.
     res_bind (list_comp (\<lambda>r. int_at tokens (2 * r + nb_resources self + 2))
                 (py_range (nb_inventories self))) (\<lambda>p.
     res_bind (py_set (end_prod self) i p) (\<lambda>end_prod'.
     let idx = 2 * nb_inventories self + nb_resources self + 1 in
     res_bind (int_at tokens idx) (\<lambda>ns.
     res_bind (py_set (nb_successors self) i ns) (\<lambda>nb_successors'.
     res_bind (list_comp (\<lambda>s. res_bind (int_at tokens (idx + 1 + s)) (\<lambda>v. Inr (v - 1)))
                 (py_range ns)) (\<lambda>su.
     res_bind (py_set (successors self) i su) (\<lambda>successors'.
       Inr (self\<lparr>duration := duration', weight := weight', start_cons := start_cons',
                 end_prod := end_prod', nb_successors := nb_successors',
                 successors := successors'\<rparr>))))))))))))))"

text \<open>
  Source lines 58 to 93. \<open>horizon\<close> and \<open>penalty_multiplier\<close> do not exist as
  attributes until they are assigned; the record holds 0 for them until then.
\<close>

definition load_instance :: "string list \<Rightarrow> rcpsp_instance result" where
  "load_instance lines =
     res_bind (py_get lines 0) (\<lambda>line0.
     let tokens = py_split line0 in
     res_bind (int_at tokens 0) (\<lambda>n.
     res_bind (int_at tokens 1) (\<lambda>nr.
     res_bind (int_at tokens 2) (\<lambda>ni.
     res_bind (py_get lines 1) (\<lambda>line1.
     let tokens = py_split line1 in
     res_bind (list_comp (\<lambda>r. int_at tokens r) (py_range nr)) (\<lambda>cap.
     res_bind (list_comp (\<lambda>r. int_at tokens (r + nr)) (py_range ni)) (\<lambda>lev.
     res_bind
       (for_loop (py_range n) (load_task lines)
          \<lparr>nb_tasks = n, nb_resources = nr, nb_inventories = ni,
           capacity = cap, init_level = lev,
           duration = replicate (nat n) 0,
           weight = replicate (nat n) [],
           start_cons = replicate (nat n) [],
           end_prod = replicate (nat n) [],
           nb_successors = replicate (nat n) 0,
           successors = replicate (nat n) [],
           horizon = 0, penalty_multiplier = 0\<rparr>) (\<lambda>self.
       Inr (self\<lparr>horizon := sum_list (duration self)\<rparr>)))))))))"

text \<open>\<open>__init__\<close>: load the file, then set the penalty multiplier.\<close>

definition init_problem :: "string list \<Rightarrow> rcpsp_instance result" where
  "init_problem lines =
     res_bind (load_instance lines) (\<lambda>self. Inr (self\<lparr>penalty_multiplier := 1000000\<rparr>))"

section \<open>The evaluator as the specification words it\<close>

text \<open>
  The definitions of this section follow the sentences of the specification, not the
  code: sums over the tasks that satisfy a condition, at every integer time of
  \<open>[0, makespan)\<close>. Tasks, resources and times are natural numbers here.
\<close>

definition task_ids :: "rcpsp_instance \<Rightarrow> nat list" where
  "task_ids self = [0..<nat (nb_tasks self)]"

definition finish_spec :: "rcpsp_instance \<Rightarrow> int list \<Rightarrow> nat \<Rightarrow> int" where
  "finish_spec self start i = start ! i + duration self ! i"

definition makespan_spec :: "rcpsp_instance \<Rightarrow> int list \<Rightarrow> int" where
  "makespan_spec self start = Max (set (map (finish_spec self start) (task_ids self)))"

definition time_units :: "rcpsp_instance \<Rightarrow> int list \<Rightarrow> nat list" where
  "time_units self start = [0..<nat (makespan_spec self start)]"

definition precedence_term :: "rcpsp_instance \<Rightarrow> int list \<Rightarrow> nat \<Rightarrow> int \<Rightarrow> int" where
  "precedence_term self start i j =
     (if start ! nat j < finish_spec self start i
      then finish_spec self start i - start ! nat j else 0)"

definition precedence_penalty_spec :: "rcpsp_instance \<Rightarrow> int list \<Rightarrow> int" where
  "precedence_penalty_spec self start =
     (\<Sum>i\<leftarrow>task_ids self. \<Sum>j\<leftarrow>successors self ! i. precedence_term self start i j)"

definition active_spec :: "rcpsp_instance \<Rightarrow> int list \<Rightarrow> int \<Rightarrow> nat \<Rightarrow> bool" where
  "active_spec self start t i = (start ! i \<le> t \<and> t < finish_spec self start i)"

definition usage_spec :: "rcpsp_instance \<Rightarrow> int list \<Rightarrow> int \<Rightarrow> nat \<Rightarrow> int" where
  "usage_spec self start t r =
     (\<Sum>i\<leftarrow>filter (active_spec self start t) (task_ids self). weight self ! i ! r)"

definition renewable_term :: "rcpsp_instance \<Rightarrow> int list \<Rightarrow> int \<Rightarrow> nat \<Rightarrow> int" where
  "renewable_term self start t r =
     (if usage_spec self start t r > capacity self ! r
      then usage_spec self start t r - capacity self ! r else 0)"

definition renewable_penalty_spec :: "rcpsp_instance \<Rightarrow> int list \<Rightarrow> int" where
  "renewable_penalty_spec self start =
     (\<Sum>t\<leftarrow>time_units self start. \<Sum>r\<leftarrow>[0..<nat (nb_resources self)].
        renewable_term self start (int t) r)"

definition level_spec :: "rcpsp_instance \<Rightarrow> int list \<Rightarrow> int \<Rightarrow> nat \<Rightarrow> int" where
  "level_spec self start t r =
     init_level self ! r
     + (\<Sum>i\<leftarrow>filter (\<lambda>i. finish_spec self start i \<le> t) (task_ids self). end_prod self ! i ! r)
     - (\<Sum>i\<leftarrow>filter (\<lambda>i. start ! i \<le> t) (task_ids self). start_cons self ! i ! r)"

definition inventory_term :: "rcpsp_instance \<Rightarrow> int list \<Rightarrow> int \<Rightarrow> nat \<Rightarrow> int" where
  "inventory_term self start t r =
     (if level_spec self start t r < 0 then abs (level_spec self start t r) else 0)"

definition inventory_penalty_spec :: "rcpsp_instance \<Rightarrow> int list \<Rightarrow> int" where
  "inventory_penalty_spec self start =
     (\<Sum>t\<leftarrow>time_units self start. \<Sum>r\<leftarrow>[0..<nat (nb_inventories self)].
        inventory_term self start (int t) r)"

definition total_penalty_spec :: "rcpsp_instance \<Rightarrow> int list \<Rightarrow> int" where
  "total_penalty_spec self start =
     precedence_penalty_spec self start + renewable_penalty_spec self start
     + inventory_penalty_spec self start"

section \<open>Instances the evaluator accepts\<close>

text \<open>
  \<open>shape_ok\<close>: the task and resource arrays have the sizes that the three counts
  declare, which is how \<open>_load_instance\<close> builds them. \<open>successors_in_range\<close>: every
  successor is a task index, \<open>0 \<le> j < nb_tasks\<close>.
\<close>

definition shape_ok :: "rcpsp_instance \<Rightarrow> bool" where
  "shape_ok self =
     (length (duration self) = nat (nb_tasks self)
      \<and> length (successors self) = nat (nb_tasks self)
      \<and> length (weight self) = nat (nb_tasks self)
      \<and> length (start_cons self) = nat (nb_tasks self)
      \<and> length (end_prod self) = nat (nb_tasks self)
      \<and> length (capacity self) = nat (nb_resources self)
      \<and> length (init_level self) = nat (nb_inventories self)
      \<and> list_all (\<lambda>w. length w = nat (nb_resources self)) (weight self)
      \<and> list_all (\<lambda>c. length c = nat (nb_inventories self)) (start_cons self)
      \<and> list_all (\<lambda>p. length p = nat (nb_inventories self)) (end_prod self))"

definition successors_in_range :: "rcpsp_instance \<Rightarrow> bool" where
  "successors_in_range self =
     list_all (list_all (\<lambda>j. 0 \<le> j \<and> j < nb_tasks self)) (successors self)"

section \<open>What a loaded task line holds\<close>

text \<open>
  \<open>task_loaded lines self i\<close>: the fields of task \<open>i\<close> are the integers read at the
  token positions of line \<open>i + 2\<close> that the loader uses, with \<open>R = nb_resources\<close> and
  \<open>K = nb_inventories\<close>.
\<close>

definition task_loaded :: "string list \<Rightarrow> rcpsp_instance \<Rightarrow> nat \<Rightarrow> bool" where
  "task_loaded lines self i =
     (let tokens = py_split (lines ! (i + 2));
          idx = 2 * nb_inventories self + nb_resources self + 1
      in i + 2 < length lines
       \<and> int_at tokens 0 = Inr (duration self ! i)
       \<and> length (weight self ! i) = nat (nb_resources self)
       \<and> (\<forall>r<nat (nb_resources self). int_at tokens (int r + 1) = Inr (weight self ! i ! r))
       \<and> length (start_cons self ! i) = nat (nb_inventories self)
       \<and> (\<forall>r<nat (nb_inventories self).
             int_at tokens (2 * int r + nb_resources self + 1) = Inr (start_cons self ! i ! r))
       \<and> length (end_prod self ! i) = nat (nb_inventories self)
       \<and> (\<forall>r<nat (nb_inventories self).
             int_at tokens (2 * int r + nb_resources self + 2) = Inr (end_prod self ! i ! r))
       \<and> int_at tokens idx = Inr (nb_successors self ! i)
       \<and> length (successors self ! i) = nat (nb_successors self ! i)
       \<and> (\<forall>s<nat (nb_successors self ! i).
             int_at tokens (idx + 1 + int s) = Inr (successors self ! i ! s + 1)))"

text \<open>What the task loop leaves alone, and the sizes it keeps.\<close>

definition same_frame :: "rcpsp_instance \<Rightarrow> rcpsp_instance \<Rightarrow> bool" where
  "same_frame s s' =
     (nb_tasks s' = nb_tasks s \<and> nb_resources s' = nb_resources s
      \<and> nb_inventories s' = nb_inventories s \<and> capacity s' = capacity s
      \<and> init_level s' = init_level s \<and> horizon s' = horizon s
      \<and> penalty_multiplier s' = penalty_multiplier s
      \<and> length (duration s') = length (duration s)
      \<and> length (weight s') = length (weight s)
      \<and> length (start_cons s') = length (start_cons s)
      \<and> length (end_prod s') = length (end_prod s)
      \<and> length (nb_successors s') = length (nb_successors s)
      \<and> length (successors s') = length (successors s))"

section \<open>Schedules without violations\<close>

text \<open>
  A violation is what one of the three penalty rules of the specification charges: a
  successor that starts before its predecessor finishes, a time unit of
  \<open>[0, makespan)\<close> at which a renewable resource is used beyond its capacity, a time
  unit of \<open>[0, makespan)\<close> at which an inventory level is below zero.
\<close>

definition no_precedence_violation :: "rcpsp_instance \<Rightarrow> int list \<Rightarrow> bool" where
  "no_precedence_violation self start =
     (\<forall>i\<in>set (task_ids self). \<forall>j\<in>set (successors self ! i).
        \<not> start ! nat j < finish_spec self start i)"

definition no_resource_violation :: "rcpsp_instance \<Rightarrow> int list \<Rightarrow> bool" where
  "no_resource_violation self start =
     (\<forall>t\<in>set (time_units self start). \<forall>r\<in>set [0..<nat (nb_resources self)].
        \<not> usage_spec self start (int t) r > capacity self ! r)"

definition no_inventory_violation :: "rcpsp_instance \<Rightarrow> int list \<Rightarrow> bool" where
  "no_inventory_violation self start =
     (\<forall>t\<in>set (time_units self start). \<forall>r\<in>set [0..<nat (nb_inventories self)].
        \<not> level_spec self start (int t) r < 0)"

definition no_violation :: "rcpsp_instance \<Rightarrow> int list \<Rightarrow> bool" where
  "no_violation self start =
     (no_precedence_violation self start \<and> no_resource_violation self start
      \<and> no_inventory_violation self start)"

section \<open>Well-formed instance files\<close>

text \<open>
  The file layout as the specification gives it: a first line of three integers, a
  second line of \<open>R\<close> capacities and \<open>K\<close> initial levels, then one line per task with
  \<open>R + 2K + 2\<close> integers followed by as many successor identifiers as the successor
  count says. \<open>enough_valid tokens k\<close>: the line has at least \<open>k\<close> tokens and its first
  \<open>k\<close> tokens are integers.
\<close>

definition valid_int :: "string \<Rightarrow> bool" where
  "valid_int token = (\<not> is_error (py_int token))"

definition int_value :: "string \<Rightarrow> int" where
  "int_value token = (case py_int token of Inl e \<Rightarrow> 0 | Inr v \<Rightarrow> v)"

definition enough_valid :: "string list \<Rightarrow> nat \<Rightarrow> bool" where
  "enough_valid tokens k = (k \<le> length tokens \<and> list_all valid_int (take k tokens))"

definition header_well_formed :: "string list \<Rightarrow> bool" where
  "header_well_formed lines = (1 \<le> length lines \<and> enough_valid (py_split (lines ! 0)) 3)"

definition declared :: "string list \<Rightarrow> nat \<Rightarrow> int" where
  "declared lines k = int_value (py_split (lines ! 0) ! k)"

definition task_line_well_formed :: "nat \<Rightarrow> nat \<Rightarrow> string list \<Rightarrow> bool" where
  "task_line_well_formed R K tokens =
     (enough_valid tokens (R + 2 * K + 2)
      \<and> enough_valid tokens (R + 2 * K + 2 + nat (int_value (tokens ! (R + 2 * K + 1)))))"

definition file_well_formed :: "string list \<Rightarrow> bool" where
  "file_well_formed lines =
     (header_well_formed lines
      \<and> (let n = declared lines 0; R = nat (declared lines 1); K = nat (declared lines 2)
         in n + 2 \<le> int (length lines)
          \<and> enough_valid (py_split (lines ! 1)) (R + K)
          \<and> (\<forall>i\<in>set [0..<nat n]. task_line_well_formed R K (py_split (lines ! (i + 2))))))"

section \<open>Example files and the instances they load\<close>

text \<open>
  Two tasks, one renewable resource of capacity 1, one inventory resource at level 0.
  Task 0: duration 1, uses 1, produces 5 at its end, successor task 1. Task 1:
  duration 2, uses 1, consumes 3 at its start.
\<close>

definition example_lines :: "string list" where
  "example_lines = [''2 1 1\<newline>'', ''1 0\<newline>'', ''1 1 0 5 1 2\<newline>'', ''2 1 3 0 0\<newline>'']"

definition example_instance :: rcpsp_instance where
  "example_instance =
     \<lparr>nb_tasks = 2, nb_resources = 1, nb_inventories = 1, capacity = [1], init_level = [0],
      duration = [1, 2], weight = [[1], [1]], start_cons = [[0], [3]],
      end_prod = [[5], [0]], nb_successors = [1, 0], successors = [[1], []], horizon = 3,
      penalty_multiplier = 1000000\<rparr>"

text \<open>Two tasks and no resources; task 0 has duration 2 and task 1 as its successor.\<close>

definition chain_lines :: "string list" where
  "chain_lines = [''2 0 0\<newline>'', ''\<newline>'', ''2 1 2\<newline>'', ''1 0\<newline>'']"

definition chain_instance :: rcpsp_instance where
  "chain_instance =
     \<lparr>nb_tasks = 2, nb_resources = 0, nb_inventories = 0, capacity = [], init_level = [],
      duration = [2, 1], weight = [[], []], start_cons = [[], []], end_prod = [[], []],
      nb_successors = [1, 0], successors = [[1], []], horizon = 3,
      penalty_multiplier = 1000000\<rparr>"

text \<open>One renewable resource of capacity 1; two tasks of duration 1 that use 1 each.\<close>

definition overlap_lines :: "string list" where
  "overlap_lines = [''2 1 0\<newline>'', ''1\<newline>'', ''1 1 0\<newline>'', ''1 1 0\<newline>'']"

definition overlap_instance :: rcpsp_instance where
  "overlap_instance =
     \<lparr>nb_tasks = 2, nb_resources = 1, nb_inventories = 0, capacity = [1], init_level = [],
      duration = [1, 1], weight = [[1], [1]], start_cons = [[], []], end_prod = [[], []],
      nb_successors = [0, 0], successors = [[], []], horizon = 2,
      penalty_multiplier = 1000000\<rparr>"

text \<open>
  One inventory resource at level 0. Task 0 has duration 1 and produces 5 at its end;
  task 1 has duration 2 and no inventory effect.
\<close>

definition producer_lines :: "string list" where
  "producer_lines = [''2 0 1\<newline>'', ''0\<newline>'', ''1 0 5 0\<newline>'', ''2 0 0 0\<newline>'']"

definition producer_instance :: rcpsp_instance where
  "producer_instance =
     \<lparr>nb_tasks = 2, nb_resources = 0, nb_inventories = 1, capacity = [], init_level = [0],
      duration = [1, 2], weight = [[], []], start_cons = [[0], [0]],
      end_prod = [[5], [0]], nb_successors = [0, 0], successors = [[], []], horizon = 3,
      penalty_multiplier = 1000000\<rparr>"

text \<open>A single task of duration 3 with no resources.\<close>

definition single_lines :: "string list" where
  "single_lines = [''1 0 0\<newline>'', ''\<newline>'', ''3 0\<newline>'']"

definition single_instance :: rcpsp_instance where
  "single_instance =
     \<lparr>nb_tasks = 1, nb_resources = 0, nb_inventories = 0, capacity = [], init_level = [],
      duration = [3], weight = [[]], start_cons = [[]], end_prod = [[]],
      nb_successors = [0], successors = [[]], horizon = 3,
      penalty_multiplier = 1000000\<rparr>"

text \<open>
  One inventory resource at level 0 and no renewable resource. Task 0 has duration 1
  and no inventory effect; task 1 has duration 0 and consumes 5 at its start.
\<close>

definition late_consumer_lines :: "string list" where
  "late_consumer_lines = [''2 0 1\<newline>'', ''0\<newline>'', ''1 0 0 0\<newline>'', ''0 5 0 0\<newline>'']"

definition late_consumer_instance :: rcpsp_instance where
  "late_consumer_instance =
     \<lparr>nb_tasks = 2, nb_resources = 0, nb_inventories = 1, capacity = [], init_level = [0],
      duration = [1, 0], weight = [[], []], start_cons = [[0], [5]],
      end_prod = [[0], [0]], nb_successors = [0, 0], successors = [[], []], horizon = 1,
      penalty_multiplier = 1000000\<rparr>"

text \<open>A file that declares no task.\<close>

definition empty_lines :: "string list" where
  "empty_lines = [''0 0 0\<newline>'', ''\<newline>'']"

definition empty_instance :: rcpsp_instance where
  "empty_instance =
     \<lparr>nb_tasks = 0, nb_resources = 0, nb_inventories = 0, capacity = [], init_level = [],
      duration = [], weight = [], start_cons = [], end_prod = [],
      nb_successors = [], successors = [], horizon = 0,
      penalty_multiplier = 1000000\<rparr>"

text \<open>
  One task, one renewable and two inventory resources: the four inventory tokens of
  the task line are 10, 20, 30, 40.
\<close>

definition paired_lines :: "string list" where
  "paired_lines = [''1 1 2\<newline>'', ''4 7 8\<newline>'', ''3 2 10 20 30 40 2 1 5\<newline>'']"

text \<open>
  The instance that \<open>_load_instance\<close> builds from \<open>paired_lines\<close>, before \<open>__init__\<close>
  sets the penalty multiplier.
\<close>

definition paired_instance :: rcpsp_instance where
  "paired_instance =
     \<lparr>nb_tasks = 1, nb_resources = 1, nb_inventories = 2, capacity = [4],
      init_level = [7, 8], duration = [3], weight = [[2]], start_cons = [[10, 30]],
      end_prod = [[20, 40]], nb_successors = [2], successors = [[0, 4]], horizon = 3,
      penalty_multiplier = 0\<rparr>"

text \<open>A file that declares two tasks and holds one task line.\<close>

definition truncated_lines :: "string list" where
  "truncated_lines = [''2 0 0\<newline>'', ''\<newline>'', ''2 1 2\<newline>'']"

section \<open>The loops of the evaluator compute the sums of the specification\<close>

lemma res_bind_Inr [simp]: "res_bind (Inr x) f = f x"
  by (simp add: res_bind_def)

lemma res_bind_Inl [simp]: "res_bind (Inl e) f = Inl e"
  by (simp add: res_bind_def)

lemma py_get_nat: "i < length xs \<Longrightarrow> py_get xs (int i) = Inr (xs ! i)"
  by (simp add: py_get_def)

lemma py_get_in_range: "0 \<le> j \<Longrightarrow> j < int (length xs) \<Longrightarrow> py_get xs j = Inr (xs ! nat j)"
  by (simp add: py_get_def)

lemma for_loop_add:
  fixes g :: "'a \<Rightarrow> int"
  assumes "\<And>x s. x \<in> set xs \<Longrightarrow> body x s = Inr (s + g x)"
  shows "for_loop xs body s = Inr (s + sum_list (map g xs))"
  using assms by (induction xs arbitrary: s) (simp_all add: add.assoc)

lemma for_loop_range_add:
  fixes g :: "nat \<Rightarrow> int"
  assumes "\<And>i s. i < nat n \<Longrightarrow> body (int i) s = Inr (s + g i)"
  shows "for_loop (py_range n) body s = Inr (s + sum_list (map g [0..<nat n]))"
proof -
  have "for_loop (map int [0..<nat n]) body s
        = Inr (s + sum_list (map (\<lambda>x. g (nat x)) (map int [0..<nat n])))"
    by (rule for_loop_add) (auto simp: assms)
  then show ?thesis by (simp add: py_range_def comp_def)
qed

lemma precedence_succ_ok:
  assumes "0 \<le> j" "j < int (length solution)"
  shows "precedence_succ solution f j p = Inr (p + (if solution ! nat j < f then f - solution ! nat j else 0))"
  using assms by (simp add: precedence_succ_def py_get_in_range)

lemma precedence_task_ok:
  assumes sh: "shape_ok self" and len: "int (length solution) = nb_tasks self"
    and sr: "successors_in_range self" and i: "i < nat (nb_tasks self)"
  shows "precedence_task self solution (int i) p
         = Inr (p + (\<Sum>j\<leftarrow>successors self ! i. precedence_term self solution i j))"
proof -
  have li: "i < length solution" "i < length (duration self)" "i < length (successors self)"
    using sh len i by (auto simp: shape_ok_def)
  have rng: "\<And>j. j \<in> set (successors self ! i) \<Longrightarrow> 0 \<le> j \<and> j < int (length solution)"
    using sr li len by (auto simp: successors_in_range_def list_all_iff)
  have "for_loop (successors self ! i) (precedence_succ solution (finish_spec self solution i)) p
        = Inr (p + (\<Sum>j\<leftarrow>successors self ! i. precedence_term self solution i j))"
    by (rule for_loop_add) (simp add: precedence_succ_ok rng precedence_term_def)
  then show ?thesis
    using li by (simp add: precedence_task_def py_get_nat finish_spec_def)
qed

lemma precedence_loop_ok:
  assumes sh: "shape_ok self" and len: "int (length solution) = nb_tasks self"
    and sr: "successors_in_range self"
  shows "precedence_loop self solution p = Inr (p + precedence_penalty_spec self solution)"
  unfolding precedence_loop_def precedence_penalty_spec_def task_ids_def
  by (rule for_loop_range_add) (simp add: precedence_task_ok [OF sh len sr])

lemma list_comp_ok:
  assumes "\<And>x. x \<in> set xs \<Longrightarrow> f x = Inr (g x)"
  shows "list_comp f xs = Inr (map g xs)"
  using assms by (induction xs) simp_all

lemma finish_time_ok:
  assumes "shape_ok self" "int (length solution) = nb_tasks self" "i < nat (nb_tasks self)"
  shows "finish_time self solution (int i) = Inr (finish_spec self solution i)"
proof -
  have "i < length solution" "i < length (duration self)"
    using assms by (auto simp: shape_ok_def)
  then show ?thesis by (simp add: finish_time_def py_get_nat finish_spec_def)
qed

lemma py_max_ok: "xs \<noteq> [] \<Longrightarrow> py_max xs = Inr (Max (set xs))"
  by (cases xs) (simp_all add: py_max_def Max.set_eq_fold [symmetric])

lemma compute_makespan_ok:
  assumes sh: "shape_ok self" and len: "int (length solution) = nb_tasks self"
    and n: "1 \<le> nb_tasks self"
  shows "compute_makespan self solution = Inr (makespan_spec self solution)"
proof -
  have "list_comp (finish_time self solution) (map int [0..<nat (nb_tasks self)])
        = Inr (map (\<lambda>x. finish_spec self solution (nat x)) (map int [0..<nat (nb_tasks self)]))"
    by (rule list_comp_ok) (auto simp: finish_time_ok [OF sh len])
  then have lc: "list_comp (finish_time self solution) (py_range (nb_tasks self))
        = Inr (map (finish_spec self solution) (task_ids self))"
    by (simp add: py_range_def task_ids_def comp_def)
  have ne: "map (finish_spec self solution) (task_ids self) \<noteq> []"
    using n by (simp add: task_ids_def)
  show ?thesis
    by (simp add: compute_makespan_def lc py_max_ok [OF ne] makespan_spec_def)
qed

lemma usage_task_ok:
  assumes sh: "shape_ok self" and len: "int (length solution) = nb_tasks self"
    and i: "i < nat (nb_tasks self)" and r: "r < nat (nb_resources self)"
  shows "usage_task self solution t (int r) (int i) u
         = Inr (u + (if active_spec self solution t i then weight self ! i ! r else 0))"
proof -
  have li: "i < length solution" "i < length (duration self)" "i < length (weight self)"
    using sh len i by (auto simp: shape_ok_def)
  have "length (weight self ! i) = nat (nb_resources self)"
    using sh li by (auto simp: shape_ok_def list_all_length)
  then have "r < length (weight self ! i)" using r by simp
  then show ?thesis
    using li by (simp add: usage_task_def py_get_nat active_spec_def finish_spec_def)
qed

lemma usage_at_ok:
  assumes sh: "shape_ok self" and len: "int (length solution) = nb_tasks self"
    and r: "r < nat (nb_resources self)"
  shows "usage_at self solution t (int r) = Inr (usage_spec self solution t r)"
proof -
  have "for_loop (py_range (nb_tasks self)) (usage_task self solution t (int r)) 0
        = Inr (0 + sum_list (map (\<lambda>i. if active_spec self solution t i then weight self ! i ! r else 0)
                              [0..<nat (nb_tasks self)]))"
    by (rule for_loop_range_add) (simp add: usage_task_ok [OF sh len _ r])
  then show ?thesis
    by (simp add: usage_at_def usage_spec_def task_ids_def sum_list_map_filter')
qed

lemma renewable_step_ok:
  assumes sh: "shape_ok self" and len: "int (length solution) = nb_tasks self"
    and r: "r < nat (nb_resources self)"
  shows "renewable_step self solution t (int r) p = Inr (p + renewable_term self solution t r)"
proof -
  have "r < length (capacity self)" using sh r by (simp add: shape_ok_def)
  then show ?thesis
    by (simp add: renewable_step_def usage_at_ok [OF sh len r] py_get_nat renewable_term_def)
qed

lemma renewable_loop_ok:
  assumes sh: "shape_ok self" and len: "int (length solution) = nb_tasks self"
  shows "renewable_loop self solution m p
         = Inr (p + (\<Sum>t\<leftarrow>[0..<nat m]. \<Sum>r\<leftarrow>[0..<nat (nb_resources self)].
                       renewable_term self solution (int t) r))"
  unfolding renewable_loop_def
  by (rule for_loop_range_add, rule for_loop_range_add)
     (simp add: renewable_step_ok [OF sh len])

lemma inventory_task_ok:
  assumes sh: "shape_ok self" and len: "int (length solution) = nb_tasks self"
    and i: "i < nat (nb_tasks self)" and r: "r < nat (nb_inventories self)"
  shows "inventory_task self solution t (int r) (int i) v
         = Inr (v + ((if finish_spec self solution i \<le> t then end_prod self ! i ! r else 0)
                     - (if solution ! i \<le> t then start_cons self ! i ! r else 0)))"
proof -
  have li: "i < length solution" "i < length (duration self)"
      "i < length (end_prod self)" "i < length (start_cons self)"
    using sh len i by (auto simp: shape_ok_def)
  have "length (end_prod self ! i) = nat (nb_inventories self)"
       "length (start_cons self ! i) = nat (nb_inventories self)"
    using sh li by (auto simp: shape_ok_def list_all_length)
  then have "r < length (end_prod self ! i)" "r < length (start_cons self ! i)"
    using r by simp_all
  then show ?thesis
    using li by (simp add: inventory_task_def py_get_nat finish_spec_def)
qed

lemma inventory_at_ok:
  assumes sh: "shape_ok self" and len: "int (length solution) = nb_tasks self"
    and r: "r < nat (nb_inventories self)"
  shows "inventory_at self solution t (int r) = Inr (level_spec self solution t r)"
proof -
  let ?g = "\<lambda>i. (if finish_spec self solution i \<le> t then end_prod self ! i ! r else 0)
                 - (if solution ! i \<le> t then start_cons self ! i ! r else 0)"
  have lr: "r < length (init_level self)" using sh r by (simp add: shape_ok_def)
  have "for_loop (py_range (nb_tasks self)) (inventory_task self solution t (int r))
          (init_level self ! r)
        = Inr (init_level self ! r + sum_list (map ?g [0..<nat (nb_tasks self)]))"
    by (rule for_loop_range_add) (simp add: inventory_task_ok [OF sh len _ r])
  then show ?thesis
    using lr
    by (simp add: inventory_at_def py_get_nat level_spec_def task_ids_def
        sum_list_map_filter' sum_list_subtractf)
qed

lemma inventory_step_ok:
  assumes sh: "shape_ok self" and len: "int (length solution) = nb_tasks self"
    and r: "r < nat (nb_inventories self)"
  shows "inventory_step self solution t (int r) p = Inr (p + inventory_term self solution t r)"
  by (simp add: inventory_step_def inventory_at_ok [OF sh len r] inventory_term_def)

lemma inventory_loop_ok:
  assumes sh: "shape_ok self" and len: "int (length solution) = nb_tasks self"
  shows "inventory_loop self solution m p
         = Inr (p + (\<Sum>t\<leftarrow>[0..<nat m]. \<Sum>r\<leftarrow>[0..<nat (nb_inventories self)].
                       inventory_term self solution (int t) r))"
  unfolding inventory_loop_def
  by (rule for_loop_range_add, rule for_loop_range_add)
     (simp add: inventory_step_ok [OF sh len])

lemma evaluate_solution_ok:
  assumes sh: "shape_ok self" and len: "int (length solution) = nb_tasks self"
    and sr: "successors_in_range self" and n: "1 \<le> nb_tasks self"
  shows "evaluate_solution self solution
         = Inr (makespan_spec self solution
                + penalty_multiplier self * total_penalty_spec self solution)"
  by (simp add: evaluate_solution_def len precedence_loop_ok [OF sh len sr]
      compute_makespan_ok [OF sh len n] renewable_loop_ok [OF sh len]
      inventory_loop_ok [OF sh len] total_penalty_spec_def renewable_penalty_spec_def
      inventory_penalty_spec_def time_units_def)

section \<open>What a successful load establishes\<close>

lemma res_bind_eq_Inr: "res_bind m f = Inr y \<longleftrightarrow> (\<exists>x. m = Inr x \<and> f x = Inr y)"
  by (cases m) simp_all

lemma py_get_eq_Inr:
  "0 \<le> j \<Longrightarrow> py_get xs j = Inr v \<longleftrightarrow> nat j < length xs \<and> v = xs ! nat j"
  by (auto simp: py_get_def)

lemma py_set_eq_Inr:
  "0 \<le> j \<Longrightarrow> py_set xs j v = Inr ys \<longleftrightarrow> nat j < length xs \<and> ys = xs[nat j := v]"
  by (auto simp: py_set_def)

lemma list_comp_Inr:
  "list_comp f xs = Inr ys \<Longrightarrow> length ys = length xs \<and> (\<forall>k<length xs. f (xs ! k) = Inr (ys ! k))"
proof (induction xs arbitrary: ys)
  case Nil
  then show ?case by simp
next
  case (Cons x xs)
  from Cons.prems obtain y zs where y: "f x = Inr y" and zs: "list_comp f xs = Inr zs"
    and ys: "ys = y # zs"
    by (auto split: sum.splits)
  from Cons.IH [OF zs] show ?case
    using y ys by (auto simp: nth_Cons split: nat.splits)
qed

lemma list_comp_range_Inr:
  assumes "list_comp f (py_range n) = Inr ys"
  shows "length ys = nat n" and "\<And>k. k < nat n \<Longrightarrow> f (int k) = Inr (ys ! k)"
  using list_comp_Inr [OF assms] by (simp_all add: py_range_def)

lemma for_loop_snoc:
  "for_loop (xs @ [x]) body s = res_bind (for_loop xs body s) (body x)"
  by (induction xs arbitrary: s) (auto split: sum.splits)

lemma load_task_unfold:
  assumes "load_task lines (int i) s = Inr s'"
  shows "\<exists>d w c p ns su.
     i + 2 < length lines
     \<and> int_at (py_split (lines ! (i + 2))) 0 = Inr d
     \<and> list_comp (\<lambda>r. int_at (py_split (lines ! (i + 2))) (r + 1)) (py_range (nb_resources s)) = Inr w
     \<and> list_comp (\<lambda>r. int_at (py_split (lines ! (i + 2))) (2 * r + nb_resources s + 1))
              (py_range (nb_inventories s)) = Inr c
     \<and> list_comp (\<lambda>r. int_at (py_split (lines ! (i + 2))) (2 * r + nb_resources s + 2))
              (py_range (nb_inventories s)) = Inr p
     \<and> int_at (py_split (lines ! (i + 2))) (2 * nb_inventories s + nb_resources s + 1) = Inr ns
     \<and> list_comp (\<lambda>k. res_bind (int_at (py_split (lines ! (i + 2)))
                    (2 * nb_inventories s + nb_resources s + 1 + 1 + k)) (\<lambda>v. Inr (v - 1)))
              (py_range ns) = Inr su
     \<and> i < length (duration s) \<and> i < length (weight s) \<and> i < length (start_cons s)
     \<and> i < length (end_prod s) \<and> i < length (nb_successors s) \<and> i < length (successors s)
     \<and> s' = s\<lparr>duration := (duration s)[i := d], weight := (weight s)[i := w],
                    start_cons := (start_cons s)[i := c], end_prod := (end_prod s)[i := p],
                    nb_successors := (nb_successors s)[i := ns],
                    successors := (successors s)[i := su]\<rparr>"
  using assms
  apply (simp only: load_task_def Let_def res_bind_eq_Inr)
  apply (elim exE conjE)
  apply (simp add: py_get_eq_Inr py_set_eq_Inr nat_add_distrib)
  done

lemma load_task_Inr:
  assumes "load_task lines (int i) s = Inr s'"
  shows "same_frame s s'" and "task_loaded lines s' i"
    and "\<And>j. j \<noteq> i \<Longrightarrow> task_loaded lines s j \<Longrightarrow> task_loaded lines s' j"
proof -
  let ?tokens = "py_split (lines ! (i + 2))"
  let ?idx = "2 * nb_inventories s + nb_resources s + 1"
  from load_task_unfold [OF assms] obtain d w c p ns su where
    line: "i + 2 < length lines"
    and d: "int_at ?tokens 0 = Inr d"
    and w: "list_comp (\<lambda>r. int_at ?tokens (r + 1)) (py_range (nb_resources s)) = Inr w"
    and c: "list_comp (\<lambda>r. int_at ?tokens (2 * r + nb_resources s + 1))
              (py_range (nb_inventories s)) = Inr c"
    and p: "list_comp (\<lambda>r. int_at ?tokens (2 * r + nb_resources s + 2))
              (py_range (nb_inventories s)) = Inr p"
    and ns: "int_at ?tokens ?idx = Inr ns"
    and su: "list_comp (\<lambda>k. res_bind (int_at ?tokens (?idx + 1 + k)) (\<lambda>v. Inr (v - 1)))
              (py_range ns) = Inr su"
    and len: "i < length (duration s)" "i < length (weight s)" "i < length (start_cons s)"
      "i < length (end_prod s)" "i < length (nb_successors s)" "i < length (successors s)"
    and s': "s' = s\<lparr>duration := (duration s)[i := d], weight := (weight s)[i := w],
                    start_cons := (start_cons s)[i := c], end_prod := (end_prod s)[i := p],
                    nb_successors := (nb_successors s)[i := ns],
                    successors := (successors s)[i := su]\<rparr>"
    by blast
  show "same_frame s s'" by (simp add: same_frame_def s')
  have su': "int_at ?tokens (?idx + 1 + int k) = Inr (su ! k + 1)" if "k < nat ns" for k
    using list_comp_range_Inr(2) [OF su that] by (auto simp: res_bind_eq_Inr)
  show "task_loaded lines s' i"
    unfolding task_loaded_def Let_def
    using line d len list_comp_range_Inr [OF w] list_comp_range_Inr [OF c]
      list_comp_range_Inr [OF p] ns list_comp_range_Inr(1) [OF su] su'
    by (simp add: s')
  show "task_loaded lines s' j" if "j \<noteq> i" "task_loaded lines s j" for j
    using that by (simp add: task_loaded_def s')
qed

lemma same_frame_refl: "same_frame s s"
  by (simp add: same_frame_def)

lemma same_frame_trans: "same_frame s s' \<Longrightarrow> same_frame s' s'' \<Longrightarrow> same_frame s s''"
  by (simp add: same_frame_def)

lemma load_loop_Inr:
  "for_loop (map int [0..<k]) (load_task lines) s0 = Inr s
   \<Longrightarrow> same_frame s0 s \<and> (\<forall>i<k. task_loaded lines s i)"
proof (induction k arbitrary: s)
  case 0
  then show ?case by (simp add: same_frame_refl)
next
  case (Suc k)
  from Suc.prems obtain s1 where
    s1: "for_loop (map int [0..<k]) (load_task lines) s0 = Inr s1"
    and step: "load_task lines (int k) s1 = Inr s"
    by (auto simp: for_loop_snoc res_bind_eq_Inr)
  note ih = Suc.IH [OF s1]
  note st = load_task_Inr [OF step]
  have "same_frame s0 s" using ih st(1) by (blast intro: same_frame_trans)
  moreover have "task_loaded lines s i" if "i < Suc k" for i
  proof (cases "i = k")
    case True
    then show ?thesis using st(2) by simp
  next
    case False
    then have "i < k" using that by simp
    then show ?thesis using ih st(3) [OF False] by blast
  qed
  ultimately show ?case by blast
qed

lemma load_instance_unfold:
  assumes "load_instance lines = Inr self"
  shows "\<exists>n nr ni cap lev s.
     0 < length lines \<and> 1 < length lines
     \<and> int_at (py_split (lines ! 0)) 0 = Inr n
     \<and> int_at (py_split (lines ! 0)) 1 = Inr nr
     \<and> int_at (py_split (lines ! 0)) 2 = Inr ni
     \<and> list_comp (\<lambda>r. int_at (py_split (lines ! 1)) r) (py_range nr) = Inr cap
     \<and> list_comp (\<lambda>r. int_at (py_split (lines ! 1)) (r + nr)) (py_range ni) = Inr lev
     \<and> for_loop (py_range n) (load_task lines)
          \<lparr>nb_tasks = n, nb_resources = nr, nb_inventories = ni,
           capacity = cap, init_level = lev,
           duration = replicate (nat n) 0,
           weight = replicate (nat n) [],
           start_cons = replicate (nat n) [],
           end_prod = replicate (nat n) [],
           nb_successors = replicate (nat n) 0,
           successors = replicate (nat n) [],
           horizon = 0, penalty_multiplier = 0\<rparr> = Inr s
     \<and> self = s\<lparr>horizon := sum_list (duration s)\<rparr>"
  using assms
  apply (simp only: load_instance_def Let_def res_bind_eq_Inr)
  apply (elim exE conjE)
  apply (simp add: py_get_eq_Inr)
  done

lemma load_instance_Inr:
  assumes "load_instance lines = Inr self"
  shows "1 < length lines"
    and "int_at (py_split (lines ! 0)) 0 = Inr (nb_tasks self)"
    and "int_at (py_split (lines ! 0)) 1 = Inr (nb_resources self)"
    and "int_at (py_split (lines ! 0)) 2 = Inr (nb_inventories self)"
    and "length (capacity self) = nat (nb_resources self)"
    and "\<And>r. r < nat (nb_resources self)
           \<Longrightarrow> int_at (py_split (lines ! 1)) (int r) = Inr (capacity self ! r)"
    and "length (init_level self) = nat (nb_inventories self)"
    and "\<And>r. r < nat (nb_inventories self)
           \<Longrightarrow> int_at (py_split (lines ! 1)) (int r + nb_resources self) = Inr (init_level self ! r)"
    and "length (duration self) = nat (nb_tasks self)"
    and "length (weight self) = nat (nb_tasks self)"
    and "length (start_cons self) = nat (nb_tasks self)"
    and "length (end_prod self) = nat (nb_tasks self)"
    and "length (nb_successors self) = nat (nb_tasks self)"
    and "length (successors self) = nat (nb_tasks self)"
    and "\<And>i. i < nat (nb_tasks self) \<Longrightarrow> task_loaded lines self i"
    and "horizon self = sum_list (duration self)"
proof -
  from load_instance_unfold [OF assms] obtain n nr ni cap lev s where
    l1: "1 < length lines"
    and n: "int_at (py_split (lines ! 0)) 0 = Inr n"
    and nr: "int_at (py_split (lines ! 0)) 1 = Inr nr"
    and ni: "int_at (py_split (lines ! 0)) 2 = Inr ni"
    and cap: "list_comp (\<lambda>r. int_at (py_split (lines ! 1)) r) (py_range nr) = Inr cap"
    and lev: "list_comp (\<lambda>r. int_at (py_split (lines ! 1)) (r + nr)) (py_range ni) = Inr lev"
    and loop: "for_loop (py_range n) (load_task lines)
          \<lparr>nb_tasks = n, nb_resources = nr, nb_inventories = ni,
           capacity = cap, init_level = lev,
           duration = replicate (nat n) 0,
           weight = replicate (nat n) [],
           start_cons = replicate (nat n) [],
           end_prod = replicate (nat n) [],
           nb_successors = replicate (nat n) 0,
           successors = replicate (nat n) [],
           horizon = 0, penalty_multiplier = 0\<rparr> = Inr s"
    and self: "self = s\<lparr>horizon := sum_list (duration s)\<rparr>"
    by blast
  from load_loop_Inr [OF loop [unfolded py_range_def]]
  have fr: "same_frame \<lparr>nb_tasks = n, nb_resources = nr, nb_inventories = ni,
           capacity = cap, init_level = lev,
           duration = replicate (nat n) 0,
           weight = replicate (nat n) [],
           start_cons = replicate (nat n) [],
           end_prod = replicate (nat n) [],
           nb_successors = replicate (nat n) 0,
           successors = replicate (nat n) [],
           horizon = 0, penalty_multiplier = 0\<rparr> s"
    and tl: "\<And>i. i < nat n \<Longrightarrow> task_loaded lines s i"
    by blast+
  have eqs: "nb_tasks self = n" "nb_resources self = nr" "nb_inventories self = ni"
    "capacity self = cap" "init_level self = lev"
    using fr by (simp_all add: same_frame_def self)
  show "1 < length lines" by (rule l1)
  show "int_at (py_split (lines ! 0)) 0 = Inr (nb_tasks self)" using n eqs by simp
  show "int_at (py_split (lines ! 0)) 1 = Inr (nb_resources self)" using nr eqs by simp
  show "int_at (py_split (lines ! 0)) 2 = Inr (nb_inventories self)" using ni eqs by simp
  show "length (capacity self) = nat (nb_resources self)"
    using list_comp_range_Inr(1) [OF cap] eqs by simp
  show "int_at (py_split (lines ! 1)) (int r) = Inr (capacity self ! r)"
    if "r < nat (nb_resources self)" for r
    using list_comp_range_Inr(2) [OF cap, of r] that eqs by simp
  show "length (init_level self) = nat (nb_inventories self)"
    using list_comp_range_Inr(1) [OF lev] eqs by simp
  show "int_at (py_split (lines ! 1)) (int r + nb_resources self) = Inr (init_level self ! r)"
    if "r < nat (nb_inventories self)" for r
    using list_comp_range_Inr(2) [OF lev, of r] that eqs by simp
  show "length (duration self) = nat (nb_tasks self)"
    "length (weight self) = nat (nb_tasks self)"
    "length (start_cons self) = nat (nb_tasks self)"
    "length (end_prod self) = nat (nb_tasks self)"
    "length (nb_successors self) = nat (nb_tasks self)"
    "length (successors self) = nat (nb_tasks self)"
    using fr by (simp_all add: same_frame_def self)
  show "task_loaded lines self i" if "i < nat (nb_tasks self)" for i
    using tl [of i] that eqs by (simp add: task_loaded_def self)
  show "horizon self = sum_list (duration self)" by (simp add: self)
qed

lemma load_instance_shape_ok:
  assumes "load_instance lines = Inr self"
  shows "shape_ok self"
proof -
  note L = load_instance_Inr [OF assms]
  have "length (weight self ! i) = nat (nb_resources self)
        \<and> length (start_cons self ! i) = nat (nb_inventories self)
        \<and> length (end_prod self ! i) = nat (nb_inventories self)"
    if "i < nat (nb_tasks self)" for i
    using L(15) [OF that] by (simp add: task_loaded_def Let_def)
  then show ?thesis
    using L(5,7,9-14) by (simp add: shape_ok_def list_all_length)
qed

lemma init_problem_Inr:
  assumes "init_problem lines = Inr self"
  shows "shape_ok self" and "penalty_multiplier self = 1000000"
proof -
  from assms obtain s where s: "load_instance lines = Inr s"
    and self: "self = s\<lparr>penalty_multiplier := 1000000\<rparr>"
    by (auto simp: init_problem_def res_bind_eq_Inr)
  show "shape_ok self" using load_instance_shape_ok [OF s] by (simp add: shape_ok_def self)
  show "penalty_multiplier self = 1000000" by (simp add: self)
qed

section \<open>The example files load to the example instances\<close>

lemma example_loaded: "init_problem example_lines = Inr example_instance"
  unfolding example_lines_def example_instance_def by code_simp

lemma chain_loaded: "init_problem chain_lines = Inr chain_instance"
  unfolding chain_lines_def chain_instance_def by code_simp

lemma overlap_loaded: "init_problem overlap_lines = Inr overlap_instance"
  unfolding overlap_lines_def overlap_instance_def by code_simp

lemma producer_loaded: "init_problem producer_lines = Inr producer_instance"
  unfolding producer_lines_def producer_instance_def by code_simp

lemma single_loaded: "init_problem single_lines = Inr single_instance"
  unfolding single_lines_def single_instance_def by code_simp

lemma empty_loaded: "init_problem empty_lines = Inr empty_instance"
  unfolding empty_lines_def empty_instance_def by code_simp

lemma late_consumer_loaded: "init_problem late_consumer_lines = Inr late_consumer_instance"
  unfolding late_consumer_lines_def late_consumer_instance_def by code_simp

lemma example_successors: "successors_in_range example_instance"
  by (simp add: successors_in_range_def example_instance_def)

lemma chain_successors: "successors_in_range chain_instance"
  by (simp add: successors_in_range_def chain_instance_def)

lemma single_successors: "successors_in_range single_instance"
  by (simp add: successors_in_range_def single_instance_def)

section \<open>The cost in three parts\<close>

lemma evaluate_solution_parts:
  assumes "shape_ok self" and "int (length solution) = nb_tasks self"
    and "successors_in_range self" and "1 \<le> nb_tasks self"
  shows "evaluate_solution self solution
         = Inr (makespan_spec self solution
                + penalty_multiplier self
                  * (precedence_penalty_spec self solution
                     + renewable_penalty_spec self solution
                     + inventory_penalty_spec self solution))"
  using evaluate_solution_ok [OF assms] by (simp add: total_penalty_spec_def)

section \<open>Penalties are sums of non-negative terms\<close>

lemma sum_list_map_nonneg:
  fixes f :: "'a \<Rightarrow> int"
  assumes "\<And>x. x \<in> set xs \<Longrightarrow> 0 \<le> f x"
  shows "0 \<le> (\<Sum>x\<leftarrow>xs. f x)"
  by (rule sum_list_nonneg) (auto simp: assms)

lemma sum_list_map_eq_0_iff:
  fixes f :: "'a \<Rightarrow> int"
  assumes "\<And>x. x \<in> set xs \<Longrightarrow> 0 \<le> f x"
  shows "(\<Sum>x\<leftarrow>xs. f x) = 0 \<longleftrightarrow> (\<forall>x\<in>set xs. f x = 0)"
  using sum_list_nonneg_eq_0_iff [of "map f xs"] assms by auto

lemma precedence_term_nonneg: "0 \<le> precedence_term self start i j"
  by (simp add: precedence_term_def)

lemma renewable_term_nonneg: "0 \<le> renewable_term self start t r"
  by (simp add: renewable_term_def)

lemma inventory_term_nonneg: "0 \<le> inventory_term self start t r"
  by (simp add: inventory_term_def)

lemma precedence_penalty_nonneg: "0 \<le> precedence_penalty_spec self start"
  unfolding precedence_penalty_spec_def
  by (intro sum_list_map_nonneg precedence_term_nonneg)

lemma renewable_penalty_nonneg: "0 \<le> renewable_penalty_spec self start"
  unfolding renewable_penalty_spec_def
  by (intro sum_list_map_nonneg renewable_term_nonneg)

lemma inventory_penalty_nonneg: "0 \<le> inventory_penalty_spec self start"
  unfolding inventory_penalty_spec_def
  by (intro sum_list_map_nonneg inventory_term_nonneg)

lemma precedence_penalty_zero_iff:
  "precedence_penalty_spec self start = 0 \<longleftrightarrow> no_precedence_violation self start"
proof -
  have "precedence_penalty_spec self start = 0
        \<longleftrightarrow> (\<forall>i\<in>set (task_ids self). (\<Sum>j\<leftarrow>successors self ! i. precedence_term self start i j) = 0)"
    unfolding precedence_penalty_spec_def
    by (rule sum_list_map_eq_0_iff) (intro sum_list_map_nonneg precedence_term_nonneg)
  also have "\<dots> \<longleftrightarrow> (\<forall>i\<in>set (task_ids self). \<forall>j\<in>set (successors self ! i).
                        precedence_term self start i j = 0)"
    by (simp add: sum_list_map_eq_0_iff precedence_term_nonneg)
  also have "\<dots> \<longleftrightarrow> no_precedence_violation self start"
    by (auto simp: no_precedence_violation_def precedence_term_def)
  finally show ?thesis .
qed

lemma renewable_penalty_zero_iff:
  "renewable_penalty_spec self start = 0 \<longleftrightarrow> no_resource_violation self start"
proof -
  have "renewable_penalty_spec self start = 0
        \<longleftrightarrow> (\<forall>t\<in>set (time_units self start).
              (\<Sum>r\<leftarrow>[0..<nat (nb_resources self)]. renewable_term self start (int t) r) = 0)"
    unfolding renewable_penalty_spec_def
    by (rule sum_list_map_eq_0_iff) (intro sum_list_map_nonneg renewable_term_nonneg)
  also have "\<dots> \<longleftrightarrow> (\<forall>t\<in>set (time_units self start). \<forall>r\<in>set [0..<nat (nb_resources self)].
                        renewable_term self start (int t) r = 0)"
    by (simp add: sum_list_map_eq_0_iff renewable_term_nonneg)
  also have "\<dots> \<longleftrightarrow> no_resource_violation self start"
    by (auto simp: no_resource_violation_def renewable_term_def)
  finally show ?thesis .
qed

lemma inventory_penalty_zero_iff:
  "inventory_penalty_spec self start = 0 \<longleftrightarrow> no_inventory_violation self start"
proof -
  have "inventory_penalty_spec self start = 0
        \<longleftrightarrow> (\<forall>t\<in>set (time_units self start).
              (\<Sum>r\<leftarrow>[0..<nat (nb_inventories self)]. inventory_term self start (int t) r) = 0)"
    unfolding inventory_penalty_spec_def
    by (rule sum_list_map_eq_0_iff) (intro sum_list_map_nonneg inventory_term_nonneg)
  also have "\<dots> \<longleftrightarrow> (\<forall>t\<in>set (time_units self start). \<forall>r\<in>set [0..<nat (nb_inventories self)].
                        inventory_term self start (int t) r = 0)"
    by (simp add: sum_list_map_eq_0_iff inventory_term_nonneg)
  also have "\<dots> \<longleftrightarrow> no_inventory_violation self start"
    by (auto simp: no_inventory_violation_def inventory_term_def)
  finally show ?thesis .
qed

lemma penalty_loops:
  assumes "shape_ok self" and "int (length solution) = nb_tasks self"
    and "successors_in_range self"
  shows "precedence_loop self solution 0 = Inr (precedence_penalty_spec self solution)"
    and "renewable_loop self solution (makespan_spec self solution)
           (precedence_penalty_spec self solution)
         = Inr (precedence_penalty_spec self solution + renewable_penalty_spec self solution)"
    and "inventory_loop self solution (makespan_spec self solution)
           (precedence_penalty_spec self solution + renewable_penalty_spec self solution)
         = Inr (total_penalty_spec self solution)"
  using precedence_loop_ok [OF assms, of 0] renewable_loop_ok [OF assms(1,2)]
    inventory_loop_ok [OF assms(1,2)]
  by (simp_all add: renewable_penalty_spec_def inventory_penalty_spec_def time_units_def
      total_penalty_spec_def)

lemma never_violated_no_violation:
  assumes "no_precedence_violation self start"
    and "\<And>t r. r < nat (nb_resources self) \<Longrightarrow> usage_spec self start t r \<le> capacity self ! r"
    and "\<And>t r. r < nat (nb_inventories self) \<Longrightarrow> 0 \<le> level_spec self start t r"
  shows "no_violation self start"
  using assms
  by (auto simp: no_violation_def no_resource_violation_def no_inventory_violation_def
      not_less)

lemma example_never_violated:
  "no_precedence_violation example_instance [0, 1]"
  "r < nat (nb_resources example_instance)
   \<Longrightarrow> usage_spec example_instance [0, 1] t r \<le> capacity example_instance ! r"
  "r < nat (nb_inventories example_instance)
   \<Longrightarrow> 0 \<le> level_spec example_instance [0, 1] t r"
proof -
  have ids: "task_ids example_instance = [0, 1]"
    by (simp add: task_ids_def example_instance_def upt_rec [of 0] upt_rec [of 1]
        upt_rec [of 2] eval_nat_numeral)
  show "no_precedence_violation example_instance [0, 1]"
    by code_simp
  show "usage_spec example_instance [0, 1] t r \<le> capacity example_instance ! r"
    if "r < nat (nb_resources example_instance)"
  proof -
    from that have "r = 0" by (simp add: example_instance_def)
    then show ?thesis
      unfolding usage_spec_def ids
      by (simp add: active_spec_def finish_spec_def example_instance_def)
  qed
  show "0 \<le> level_spec example_instance [0, 1] t r"
    if "r < nat (nb_inventories example_instance)"
  proof -
    from that have "r = 0" by (simp add: example_instance_def)
    then show ?thesis
      unfolding level_spec_def ids
      by (simp add: finish_spec_def example_instance_def)
  qed
qed

section \<open>Token positions\<close>

lemma paired_loaded: "load_instance paired_lines = Inr paired_instance"
  unfolding paired_lines_def paired_instance_def by code_simp

lemma int_at_nat:
  assumes "int_at tokens (int k) = Inr v"
  shows "k < length tokens" and "py_int (tokens ! k) = Inr v"
  using assms by (auto simp: int_at_def res_bind_eq_Inr py_get_eq_Inr)

lemma int_at_valid:
  assumes "int_at tokens (int k) = Inr v"
  shows "valid_int (tokens ! k)" and "int_value (tokens ! k) = v"
  using int_at_nat(2) [OF assms] by (simp_all add: valid_int_def int_value_def is_error_def)

lemma enough_validI:
  assumes "\<And>k. k < m \<Longrightarrow> \<exists>v. int_at tokens (int k) = Inr v"
  shows "enough_valid tokens m"
proof -
  have len: "m \<le> length tokens"
  proof (cases m)
    case 0
    then show ?thesis by simp
  next
    case (Suc m')
    then obtain v where "int_at tokens (int m') = Inr v" using assms [of m'] by auto
    from int_at_nat(1) [OF this] show ?thesis using Suc by simp
  qed
  have "valid_int (take m tokens ! k)" if "k < m" for k
  proof -
    from assms [OF that] obtain v where "int_at tokens (int k) = Inr v" by blast
    from int_at_valid(1) [OF this] show ?thesis using that by simp
  qed
  then show ?thesis using len by (simp add: enough_valid_def list_all_length)
qed

lemma task_loaded_token:
  assumes tl: "task_loaded lines self i"
    and R: "0 \<le> nb_resources self" and K: "0 \<le> nb_inventories self"
    and k: "k < nat (nb_resources self) + 2 * nat (nb_inventories self) + 2
                + nat (nb_successors self ! i)"
  shows "\<exists>v. int_at (py_split (lines ! (i + 2))) (int k) = Inr v"
proof -
  let ?tokens = "py_split (lines ! (i + 2))"
  let ?R = "nat (nb_resources self)"
  let ?K = "nat (nb_inventories self)"
  let ?idx = "2 * nb_inventories self + nb_resources self + 1"
  from tl have d: "int_at ?tokens 0 = Inr (duration self ! i)"
    and w: "\<And>r. r < ?R \<Longrightarrow> int_at ?tokens (int r + 1) = Inr (weight self ! i ! r)"
    and c: "\<And>r. r < ?K \<Longrightarrow> int_at ?tokens (2 * int r + nb_resources self + 1)
                                = Inr (start_cons self ! i ! r)"
    and p: "\<And>r. r < ?K \<Longrightarrow> int_at ?tokens (2 * int r + nb_resources self + 2)
                                = Inr (end_prod self ! i ! r)"
    and ns: "int_at ?tokens ?idx = Inr (nb_successors self ! i)"
    and su: "\<And>s. s < nat (nb_successors self ! i)
               \<Longrightarrow> int_at ?tokens (?idx + 1 + int s) = Inr (successors self ! i ! s + 1)"
    by (simp_all add: task_loaded_def Let_def)
  consider "k = 0" | "1 \<le> k \<and> k \<le> ?R" | "?R + 1 \<le> k \<and> k \<le> ?R + 2 * ?K"
    | "k = ?R + 2 * ?K + 1" | "?R + 2 * ?K + 2 \<le> k"
    by linarith
  then show ?thesis
  proof cases
    case 1
    then show ?thesis using d by auto
  next
    case 2
    then have "k - 1 < ?R" and "int (k - 1) + 1 = int k" by auto
    then show ?thesis using w [of "k - 1"] by auto
  next
    case 3
    define e where "e = k - (?R + 1)"
    have e: "e < 2 * ?K" "int k = int e + nb_resources self + 1"
      using 3 R by (auto simp: e_def)
    show ?thesis
    proof (cases "even e")
      case True
      then have "e div 2 < ?K" "2 * int (e div 2) = int e" using e(1) by auto
      then show ?thesis using c [of "e div 2"] e(2) by auto
    next
      case False
      then have "e div 2 < ?K" "2 * int (e div 2) + 1 = int e"
        using e(1) by (auto elim!: oddE)
      then have "2 * int (e div 2) + nb_resources self + 2 = int k" using e(2) by linarith
      then show ?thesis using p [of "e div 2"] \<open>e div 2 < ?K\<close> by auto
    qed
  next
    case 4
    then have "?idx = int k" using R K by auto
    then show ?thesis using ns by auto
  next
    case 5
    define s where "s = k - (?R + 2 * ?K + 2)"
    have "s < nat (nb_successors self ! i)" "?idx + 1 + int s = int k"
      using 5 k R K by (auto simp: s_def)
    then show ?thesis using su [of s] by auto
  qed
qed

section \<open>A file that loads is well formed\<close>

lemma load_instance_header:
  assumes "load_instance lines = Inr self"
  shows "header_well_formed lines"
    and "declared lines 0 = nb_tasks self"
    and "declared lines 1 = nb_resources self"
    and "declared lines 2 = nb_inventories self"
proof -
  let ?tokens = "py_split (lines ! 0)"
  note L = load_instance_Inr [OF assms]
  have a: "int_at ?tokens (int 0) = Inr (nb_tasks self)"
    "int_at ?tokens (int 1) = Inr (nb_resources self)"
    "int_at ?tokens (int 2) = Inr (nb_inventories self)"
    using L(2-4) by simp_all
  have "\<exists>v. int_at ?tokens (int k) = Inr v" if "k < 3" for k
  proof -
    from that consider "k = 0" | "k = 1" | "k = 2" by linarith
    then show ?thesis using a by cases auto
  qed
  then have "enough_valid ?tokens 3" by (rule enough_validI)
  then show "header_well_formed lines"
    using L(1) by (simp add: header_well_formed_def)
  show "declared lines 0 = nb_tasks self"
    using int_at_valid(2) [OF a(1)] by (simp add: declared_def)
  show "declared lines 1 = nb_resources self"
    using int_at_valid(2) [OF a(2)] by (simp add: declared_def)
  show "declared lines 2 = nb_inventories self"
    using int_at_valid(2) [OF a(3)] by (simp add: declared_def)
qed

lemma load_instance_well_formed:
  assumes ld: "load_instance lines = Inr self"
    and R: "0 \<le> nb_resources self" and K: "0 \<le> nb_inventories self"
  shows "file_well_formed lines"
proof -
  let ?n = "nb_tasks self"
  let ?R = "nat (nb_resources self)"
  let ?K = "nat (nb_inventories self)"
  note L = load_instance_Inr [OF ld]
  note H = load_instance_header [OF ld]
  have lines: "?n + 2 \<le> int (length lines)"
  proof (cases "?n \<le> 0")
    case True
    then show ?thesis using L(1) by simp
  next
    case False
    then have "nat ?n - 1 < nat ?n" by simp
    from L(15) [OF this] have "nat ?n - 1 + 2 < length lines"
      by (simp add: task_loaded_def Let_def)
    then show ?thesis using False by linarith
  qed
  have second: "enough_valid (py_split (lines ! 1)) (?R + ?K)"
  proof (rule enough_validI)
    fix k assume k: "k < ?R + ?K"
    show "\<exists>v. int_at (py_split (lines ! 1)) (int k) = Inr v"
    proof (cases "k < ?R")
      case True
      then show ?thesis using L(6) [of k] by blast
    next
      case False
      then have "k - ?R < ?K" and e: "int (k - ?R) + nb_resources self = int k"
        using k R by auto
      from L(8) [OF this(1)] show ?thesis by (simp only: e) blast
    qed
  qed
  have task: "task_line_well_formed ?R ?K (py_split (lines ! (i + 2)))" if "i < nat ?n" for i
  proof -
    let ?tokens = "py_split (lines ! (i + 2))"
    note tl = L(15) [OF that]
    have all: "enough_valid ?tokens (?R + 2 * ?K + 2 + nat (nb_successors self ! i))"
      by (rule enough_validI) (rule task_loaded_token [OF tl R K])
    have fixed: "enough_valid ?tokens (?R + 2 * ?K + 2)"
      by (rule enough_validI) (rule task_loaded_token [OF tl R K], simp)
    have "int_at ?tokens (2 * nb_inventories self + nb_resources self + 1)
          = Inr (nb_successors self ! i)"
      using tl by (simp add: task_loaded_def Let_def)
    moreover have "2 * nb_inventories self + nb_resources self + 1 = int (?R + 2 * ?K + 1)"
      using R K by simp
    ultimately have "int_at ?tokens (int (?R + 2 * ?K + 1)) = Inr (nb_successors self ! i)"
      by (simp only:)
    from int_at_valid(2) [OF this]
    have "int_value (?tokens ! (?R + 2 * ?K + 1)) = nb_successors self ! i" .
    then show ?thesis
      using all fixed by (simp add: task_line_well_formed_def)
  qed
  show ?thesis
    unfolding file_well_formed_def Let_def H(2-4)
    using H(1) lines second task by simp
qed

lemma example_files_well_formed:
  "file_well_formed example_lines" "file_well_formed paired_lines"
  "file_well_formed empty_lines"
  by code_simp+

section \<open>The claims\<close>

text \<open>
  C1. For an instance with at least one task, arrays of the declared sizes, successors
  that are task indices and the penalty multiplier that \<open>__init__\<close> sets, and for a
  schedule with one start time per task, \<open>evaluate_solution\<close> returns the makespan (the
  maximum of \<open>start[i] + duration[i]\<close>) plus 1000000 times the sum of the precedence,
  renewable-resource and inventory penalties, none of them capped.
\<close>

theorem evaluate_solution_cost:
  assumes "shape_ok self" and "successors_in_range self" and "1 \<le> nb_tasks self"
    and "penalty_multiplier self = 1000000"
    and "int (length solution) = nb_tasks self"
  shows "evaluate_solution self solution
         = Inr (Max (set (map (\<lambda>i. solution ! i + duration self ! i) [0..<nat (nb_tasks self)]))
                + 1000000 * (precedence_penalty_spec self solution
                             + renewable_penalty_spec self solution
                             + inventory_penalty_spec self solution))"
proof -
  have "makespan_spec self solution
        = Max (set (map (\<lambda>i. solution ! i + duration self ! i) [0..<nat (nb_tasks self)]))"
    by (simp add: makespan_spec_def task_ids_def finish_spec_def [abs_def])
  then show ?thesis
    using evaluate_solution_ok [OF assms(1) assms(5) assms(2) assms(3)] assms(4)
    by (simp add: total_penalty_spec_def)
qed

theorem evaluate_solution_cost_witness:
  "shape_ok example_instance \<and> successors_in_range example_instance
   \<and> 1 \<le> nb_tasks example_instance \<and> penalty_multiplier example_instance = 1000000
   \<and> int (length [0, 0 :: int]) = nb_tasks example_instance
   \<and> evaluate_solution example_instance [0, 0] = Inr (2 + 1000000 * (1 + 1 + 3))"
proof -
  have h1: "shape_ok example_instance" by (rule init_problem_Inr(1) [OF example_loaded])
  have h2: "successors_in_range example_instance" by (rule example_successors)
  have h3: "1 \<le> nb_tasks example_instance" by (simp add: example_instance_def)
  have h4: "penalty_multiplier example_instance = 1000000" by (simp add: example_instance_def)
  have h5: "int (length [0, 0 :: int]) = nb_tasks example_instance"
    by (simp add: example_instance_def)
  have v: "Max (set (map (\<lambda>i. [0, 0 :: int] ! i + duration example_instance ! i)
                [0..<nat (nb_tasks example_instance)])) = 2"
    "precedence_penalty_spec example_instance [0, 0] = 1"
    "renewable_penalty_spec example_instance [0, 0] = 1"
    "inventory_penalty_spec example_instance [0, 0] = 3"
    by code_simp+
  have c: "evaluate_solution example_instance [0, 0] = Inr (2 + 1000000 * (1 + 1 + 3))"
    using evaluate_solution_cost [OF h1 h2 h3 h4 h5] by (simp only: v)
  show ?thesis
    using h1 h2 h3 h4 h5 c by blast
qed

text \<open>
  C2. For an instance with arrays of the declared sizes and a schedule with one start
  time per task, the inventory computation of \<open>evaluate_solution\<close> at time \<open>t\<close> and
  inventory resource \<open>r\<close> yields the initial level plus the end productions of the tasks
  with \<open>start[i] + duration[i] \<le> t\<close> minus the start consumptions of the tasks with
  \<open>start[i] \<le> t\<close>; the step adds the absolute value of that level to the penalty exactly
  when the level is below zero; the loop does so for every \<open>t\<close> of \<open>[0, makespan)\<close> and
  every \<open>r\<close>, and this sum is the inventory part of the returned cost. In particular a
  task that starts at 0, lasts 1 and produces 5 is counted in the level at time 1 and
  not in the level at time 0.
\<close>

theorem inventory_level_and_penalty:
  assumes "shape_ok self" and "int (length solution) = nb_tasks self"
    and "r < nat (nb_inventories self)"
  shows "inventory_at self solution t (int r)
         = Inr (init_level self ! r
                + (\<Sum>i\<leftarrow>filter (\<lambda>i. solution ! i + duration self ! i \<le> t)
                                 [0..<nat (nb_tasks self)]. end_prod self ! i ! r)
                - (\<Sum>i\<leftarrow>filter (\<lambda>i. solution ! i \<le> t)
                                 [0..<nat (nb_tasks self)]. start_cons self ! i ! r))
       \<and> inventory_step self solution t (int r) penalty
         = Inr (if level_spec self solution t r < 0
                then penalty + abs (level_spec self solution t r) else penalty)
       \<and> inventory_loop self solution (makespan_spec self solution) penalty
         = Inr (penalty + inventory_penalty_spec self solution)
       \<and> (successors_in_range self \<and> 1 \<le> nb_tasks self \<longrightarrow>
            evaluate_solution self solution
            = Inr (makespan_spec self solution
                   + penalty_multiplier self
                     * (precedence_penalty_spec self solution
                        + renewable_penalty_spec self solution
                        + inventory_penalty_spec self solution)))
       \<and> inventory_at producer_instance [0, 0] 0 0 = Inr 0
       \<and> inventory_at producer_instance [0, 0] 1 0 = Inr 5"
proof -
  have a: "inventory_at self solution t (int r) = Inr (level_spec self solution t r)"
    by (rule inventory_at_ok [OF assms])
  have b: "inventory_step self solution t (int r) penalty
           = Inr (if level_spec self solution t r < 0
                  then penalty + abs (level_spec self solution t r) else penalty)"
    using inventory_step_ok [OF assms, of t penalty] by (simp add: inventory_term_def)
  have c: "inventory_loop self solution (makespan_spec self solution) penalty
           = Inr (penalty + inventory_penalty_spec self solution)"
    using inventory_loop_ok [OF assms(1,2)]
    by (simp add: inventory_penalty_spec_def time_units_def)
  have d: "inventory_at producer_instance [0, 0] 0 0 = Inr 0"
    "inventory_at producer_instance [0, 0] 1 0 = Inr 5"
    by code_simp+
  show ?thesis
    using a b c d evaluate_solution_parts [OF assms(1,2)]
    by (simp add: level_spec_def task_ids_def finish_spec_def)
qed

theorem inventory_level_and_penalty_witness:
  "shape_ok example_instance \<and> int (length [0, 0 :: int]) = nb_tasks example_instance
   \<and> 0 < nat (nb_inventories example_instance)
   \<and> inventory_step example_instance [0, 0] 0 (int 0) 1 = Inr 4
   \<and> inventory_step example_instance [0, 0] 1 (int 0) 1 = Inr 1"
proof -
  have h1: "shape_ok example_instance" by (rule init_problem_Inr(1) [OF example_loaded])
  have h2: "int (length [0, 0 :: int]) = nb_tasks example_instance"
    by (simp add: example_instance_def)
  have h3: "0 < nat (nb_inventories example_instance)" by (simp add: example_instance_def)
  have v: "level_spec example_instance [0, 0] 0 0 = - 3"
    "level_spec example_instance [0, 0] 1 0 = 2"
    by code_simp+
  have t0: "inventory_step example_instance [0, 0] 0 (int 0) 1 = Inr 4"
    using inventory_level_and_penalty [OF h1 h2 h3, of 0 1, THEN conjunct2, THEN conjunct1]
    by (simp only: v) simp
  have t1: "inventory_step example_instance [0, 0] 1 (int 0) 1 = Inr 1"
    using inventory_level_and_penalty [OF h1 h2 h3, of 1 1, THEN conjunct2, THEN conjunct1]
    by (simp only: v) simp
  show ?thesis
    using h1 h2 h3 t0 t1 by blast
qed

text \<open>
  C3. For an instance with arrays of the declared sizes and a schedule with one start
  time per task, the usage that \<open>evaluate_solution\<close> computes at time \<open>t\<close> for renewable
  resource \<open>r\<close> is the sum of \<open>weight[i][r]\<close> over the tasks with
  \<open>start[i] \<le> t < start[i] + duration[i]\<close>; the step adds usage minus capacity to the
  penalty exactly when the usage exceeds the capacity; the loop does so for every \<open>t\<close> of
  \<open>[0, makespan)\<close> and every \<open>r\<close>, and this sum is the renewable part of the returned
  cost. Two fully overlapping tasks that each use 1 of a resource of capacity 1 are
  charged one unit at time 0.
\<close>

theorem renewable_usage_and_penalty:
  assumes "shape_ok self" and "int (length solution) = nb_tasks self"
    and "r < nat (nb_resources self)"
  shows "usage_at self solution t (int r)
         = Inr (\<Sum>i\<leftarrow>filter (\<lambda>i. solution ! i \<le> t \<and> t < solution ! i + duration self ! i)
                              [0..<nat (nb_tasks self)]. weight self ! i ! r)
       \<and> renewable_step self solution t (int r) penalty
         = Inr (if usage_spec self solution t r > capacity self ! r
                then penalty + (usage_spec self solution t r - capacity self ! r)
                else penalty)
       \<and> renewable_loop self solution (makespan_spec self solution) penalty
         = Inr (penalty + renewable_penalty_spec self solution)
       \<and> (successors_in_range self \<and> 1 \<le> nb_tasks self \<longrightarrow>
            evaluate_solution self solution
            = Inr (makespan_spec self solution
                   + penalty_multiplier self
                     * (precedence_penalty_spec self solution
                        + renewable_penalty_spec self solution
                        + inventory_penalty_spec self solution)))
       \<and> usage_at overlap_instance [0, 0] 0 0 = Inr 2
       \<and> renewable_loop overlap_instance [0, 0] 1 0 = Inr 1
       \<and> evaluate_solution overlap_instance [0, 0] = Inr (1 + 1000000 * 1)"
proof -
  have a: "usage_at self solution t (int r) = Inr (usage_spec self solution t r)"
    by (rule usage_at_ok [OF assms])
  have b: "renewable_step self solution t (int r) penalty
           = Inr (if usage_spec self solution t r > capacity self ! r
                  then penalty + (usage_spec self solution t r - capacity self ! r)
                  else penalty)"
    using renewable_step_ok [OF assms, of t penalty] by (simp add: renewable_term_def)
  have c: "renewable_loop self solution (makespan_spec self solution) penalty
           = Inr (penalty + renewable_penalty_spec self solution)"
    using renewable_loop_ok [OF assms(1,2)]
    by (simp add: renewable_penalty_spec_def time_units_def)
  have d: "usage_at overlap_instance [0, 0] 0 0 = Inr 2"
    "renewable_loop overlap_instance [0, 0] 1 0 = Inr 1"
    "evaluate_solution overlap_instance [0, 0] = Inr (1 + 1000000 * 1)"
    by code_simp+
  show ?thesis
    using a b c d evaluate_solution_parts [OF assms(1,2)]
    by (simp add: usage_spec_def task_ids_def active_spec_def [abs_def] finish_spec_def)
qed

theorem renewable_usage_and_penalty_witness:
  "shape_ok example_instance \<and> int (length [0, 0 :: int]) = nb_tasks example_instance
   \<and> 0 < nat (nb_resources example_instance)
   \<and> renewable_step example_instance [0, 0] 0 (int 0) 7 = Inr 8
   \<and> renewable_step example_instance [0, 0] 1 (int 0) 7 = Inr 7"
proof -
  have h1: "shape_ok example_instance" by (rule init_problem_Inr(1) [OF example_loaded])
  have h2: "int (length [0, 0 :: int]) = nb_tasks example_instance"
    by (simp add: example_instance_def)
  have h3: "0 < nat (nb_resources example_instance)" by (simp add: example_instance_def)
  have v: "usage_spec example_instance [0, 0] 0 0 = 2"
    "usage_spec example_instance [0, 0] 1 0 = 1"
    "capacity example_instance ! 0 = 1"
    by code_simp+
  have t0: "renewable_step example_instance [0, 0] 0 (int 0) 7 = Inr 8"
    using renewable_usage_and_penalty [OF h1 h2 h3, of 0 7, THEN conjunct2, THEN conjunct1]
    by (simp only: v) simp
  have t1: "renewable_step example_instance [0, 0] 1 (int 0) 7 = Inr 7"
    using renewable_usage_and_penalty [OF h1 h2 h3, of 1 7, THEN conjunct2, THEN conjunct1]
    by (simp only: v) simp
  show ?thesis
    using h1 h2 h3 t0 t1 by blast
qed

text \<open>
  C4. For an instance with arrays of the declared sizes and successors that are task
  indices, and a schedule with one start time per task: for task \<open>i\<close> and a successor
  \<open>j\<close> of \<open>i\<close>, the step of \<open>evaluate_solution\<close> adds
  \<open>start[i] + duration[i] - start[j]\<close> to the penalty exactly when
  \<open>start[j] < start[i] + duration[i]\<close>, the amount of the overlap and not a flag; the
  loop adds these amounts over all tasks and all their successors, and this sum is the
  precedence part of the returned cost. With two tasks, task 0 of duration 2 with
  successor task 1, the schedule \<open>[0, 1]\<close> has precedence penalty 1 and the schedule
  \<open>[0, 2]\<close> has precedence penalty 0.
\<close>

theorem precedence_penalty_magnitude:
  assumes "shape_ok self" and "int (length solution) = nb_tasks self"
    and "successors_in_range self"
    and "i < nat (nb_tasks self)" and "j \<in> set (successors self ! i)"
  shows "precedence_succ solution (solution ! i + duration self ! i) j penalty
         = Inr (if solution ! nat j < solution ! i + duration self ! i
                then penalty + (solution ! i + duration self ! i - solution ! nat j)
                else penalty)
       \<and> precedence_task self solution (int i) penalty
         = Inr (penalty + (\<Sum>k\<leftarrow>successors self ! i.
                  if solution ! nat k < solution ! i + duration self ! i
                  then solution ! i + duration self ! i - solution ! nat k else 0))
       \<and> precedence_loop self solution penalty
         = Inr (penalty + precedence_penalty_spec self solution)
       \<and> (1 \<le> nb_tasks self \<longrightarrow>
            evaluate_solution self solution
            = Inr (makespan_spec self solution
                   + penalty_multiplier self
                     * (precedence_penalty_spec self solution
                        + renewable_penalty_spec self solution
                        + inventory_penalty_spec self solution)))
       \<and> precedence_loop chain_instance [0, 1] 0 = Inr 1
       \<and> precedence_loop chain_instance [0, 2] 0 = Inr 0
       \<and> evaluate_solution chain_instance [0, 1] = Inr (2 + 1000000 * 1)
       \<and> evaluate_solution chain_instance [0, 2] = Inr 3"
proof -
  have li: "i < length (successors self)"
    using assms(1,4) by (simp add: shape_ok_def)
  have rng: "0 \<le> j" "j < int (length solution)"
    using assms(2,3,5) li by (auto simp: successors_in_range_def list_all_iff)
  have a: "precedence_succ solution (solution ! i + duration self ! i) j penalty
           = Inr (if solution ! nat j < solution ! i + duration self ! i
                  then penalty + (solution ! i + duration self ! i - solution ! nat j)
                  else penalty)"
    using precedence_succ_ok [OF rng, of "solution ! i + duration self ! i" penalty] by simp
  have b: "precedence_task self solution (int i) penalty
           = Inr (penalty + (\<Sum>k\<leftarrow>successors self ! i.
                    if solution ! nat k < solution ! i + duration self ! i
                    then solution ! i + duration self ! i - solution ! nat k else 0))"
    using precedence_task_ok [OF assms(1,2,3,4), of penalty]
    by (simp add: precedence_term_def [abs_def] finish_spec_def cong: if_cong)
  have c: "precedence_loop self solution penalty
           = Inr (penalty + precedence_penalty_spec self solution)"
    by (rule precedence_loop_ok [OF assms(1,2,3)])
  have d: "precedence_loop chain_instance [0, 1] 0 = Inr 1"
    "precedence_loop chain_instance [0, 2] 0 = Inr 0"
    "evaluate_solution chain_instance [0, 1] = Inr (2 + 1000000 * 1)"
    "evaluate_solution chain_instance [0, 2] = Inr 3"
    by code_simp+
  show ?thesis
    using a b c d evaluate_solution_parts [OF assms(1,2,3)] by simp
qed

theorem precedence_penalty_magnitude_witness:
  "shape_ok example_instance \<and> int (length [0, 0 :: int]) = nb_tasks example_instance
   \<and> successors_in_range example_instance \<and> 0 < nat (nb_tasks example_instance)
   \<and> 1 \<in> set (successors example_instance ! 0)
   \<and> precedence_succ [0, 0] ([0, 0] ! 0 + duration example_instance ! 0) 1 7 = Inr 8"
proof -
  have h1: "shape_ok example_instance" by (rule init_problem_Inr(1) [OF example_loaded])
  have h2: "int (length [0, 0 :: int]) = nb_tasks example_instance"
    by (simp add: example_instance_def)
  have h3: "successors_in_range example_instance" by (rule example_successors)
  have h4: "0 < nat (nb_tasks example_instance)" by (simp add: example_instance_def)
  have h5: "1 \<in> set (successors example_instance ! 0)" by (simp add: example_instance_def)
  have d: "duration example_instance ! 0 = 1" by (simp add: example_instance_def)
  have t0: "precedence_succ [0, 0] ([0, 0] ! 0 + duration example_instance ! 0) 1 7 = Inr 8"
    using precedence_penalty_magnitude [OF h1 h2 h3 h4 h5, of 7, THEN conjunct1]
    by (simp add: d)
  show ?thesis
    using h1 h2 h3 h4 h5 t0 by blast
qed

text \<open>
  C5. For an instance with at least one task, arrays of the declared sizes and
  successors that are task indices, and a schedule with one start time per task that
  has no precedence, renewable-resource or inventory violation, \<open>evaluate_solution\<close>
  returns exactly the makespan: each of the three loops leaves the penalty at 0.
\<close>

theorem no_violation_cost_is_makespan:
  assumes "shape_ok self" and "int (length solution) = nb_tasks self"
    and "successors_in_range self" and "1 \<le> nb_tasks self"
    and "no_violation self solution"
  shows "evaluate_solution self solution = Inr (makespan_spec self solution)
       \<and> precedence_loop self solution 0 = Inr 0
       \<and> renewable_loop self solution (makespan_spec self solution) 0 = Inr 0
       \<and> inventory_loop self solution (makespan_spec self solution) 0 = Inr 0"
proof -
  have z: "precedence_penalty_spec self solution = 0"
    "renewable_penalty_spec self solution = 0"
    "inventory_penalty_spec self solution = 0"
    using assms(5)
    by (simp_all add: no_violation_def precedence_penalty_zero_iff
        renewable_penalty_zero_iff inventory_penalty_zero_iff)
  then have t: "total_penalty_spec self solution = 0"
    by (simp add: total_penalty_spec_def)
  show ?thesis
    using evaluate_solution_ok [OF assms(1-4)] penalty_loops [OF assms(1-3)]
    by (simp add: z t)
qed

theorem no_violation_cost_is_makespan_witness:
  "shape_ok example_instance \<and> int (length [0, 1 :: int]) = nb_tasks example_instance
   \<and> successors_in_range example_instance \<and> 1 \<le> nb_tasks example_instance
   \<and> no_violation example_instance [0, 1]
   \<and> evaluate_solution example_instance [0, 1] = Inr 3"
proof -
  have h1: "shape_ok example_instance" by (rule init_problem_Inr(1) [OF example_loaded])
  have h2: "int (length [0, 1 :: int]) = nb_tasks example_instance"
    by (simp add: example_instance_def)
  have h3: "successors_in_range example_instance" by (rule example_successors)
  have h4: "1 \<le> nb_tasks example_instance" by (simp add: example_instance_def)
  have h5: "no_violation example_instance [0, 1]" by code_simp
  have m: "makespan_spec example_instance [0, 1] = 3" by code_simp
  have c: "evaluate_solution example_instance [0, 1] = Inr 3"
    using no_violation_cost_is_makespan [OF h1 h2 h3 h4 h5, THEN conjunct1]
    by (simp only: m)
  show ?thesis
    using h1 h2 h3 h4 h5 c by blast
qed

text \<open>
  C6. When \<open>_load_instance\<close> succeeds on a file whose first line declares non-negative
  resource counts \<open>R\<close> and \<open>K\<close>, the fields of every task \<open>i\<close> are the integers at fixed
  positions of line \<open>i + 2\<close>: the duration at token 0, the usage of resource \<open>r\<close> at
  token \<open>r + 1\<close>, the consumption of inventory \<open>r\<close> at token \<open>R + 1 + 2r\<close> and its
  production at token \<open>R + 2 + 2r\<close> (in pairs, not all consumptions and then all
  productions), the successor count at token \<open>R + 2K + 1\<close>, and successor \<open>s\<close> is the
  integer at token \<open>R + 2K + 2 + s\<close> minus 1. On \<open>paired_lines\<close>, whose inventory tokens
  are 10 20 30 40, the consumptions are 10 and 30 and the productions 20 and 40.
\<close>

theorem task_line_token_order:
  assumes "load_instance lines = Inr self"
    and "0 \<le> nb_resources self" and "0 \<le> nb_inventories self"
    and "i < nat (nb_tasks self)"
  shows "(let tokens = py_split (lines ! (i + 2));
              R = nat (nb_resources self); K = nat (nb_inventories self)
          in R + 2 * K + 2 + nat (nb_successors self ! i) \<le> length tokens
           \<and> py_int (tokens ! 0) = Inr (duration self ! i)
           \<and> length (weight self ! i) = R
           \<and> (\<forall>r<R. py_int (tokens ! (r + 1)) = Inr (weight self ! i ! r))
           \<and> length (start_cons self ! i) = K
           \<and> (\<forall>r<K. py_int (tokens ! (R + 1 + 2 * r)) = Inr (start_cons self ! i ! r))
           \<and> length (end_prod self ! i) = K
           \<and> (\<forall>r<K. py_int (tokens ! (R + 2 + 2 * r)) = Inr (end_prod self ! i ! r))
           \<and> py_int (tokens ! (R + 2 * K + 1)) = Inr (nb_successors self ! i)
           \<and> length (successors self ! i) = nat (nb_successors self ! i)
           \<and> (\<forall>s<nat (nb_successors self ! i).
                 py_int (tokens ! (R + 2 * K + 2 + s)) = Inr (successors self ! i ! s + 1)))
       \<and> load_instance paired_lines = Inr paired_instance
       \<and> start_cons paired_instance = [[10, 30]] \<and> end_prod paired_instance = [[20, 40]]"
proof -
  let ?tokens = "py_split (lines ! (i + 2))"
  let ?R = "nat (nb_resources self)"
  let ?K = "nat (nb_inventories self)"
  let ?idx = "2 * nb_inventories self + nb_resources self + 1"
  note R = assms(2) and K = assms(3)
  have tl: "task_loaded lines self i"
    by (rule load_instance_Inr(15) [OF assms(1) assms(4)])
  then have d: "int_at ?tokens 0 = Inr (duration self ! i)"
    and lw: "length (weight self ! i) = ?R"
    and w: "\<And>r. r < ?R \<Longrightarrow> int_at ?tokens (int r + 1) = Inr (weight self ! i ! r)"
    and lc: "length (start_cons self ! i) = ?K"
    and c: "\<And>r. r < ?K \<Longrightarrow> int_at ?tokens (2 * int r + nb_resources self + 1)
                                = Inr (start_cons self ! i ! r)"
    and lp: "length (end_prod self ! i) = ?K"
    and p: "\<And>r. r < ?K \<Longrightarrow> int_at ?tokens (2 * int r + nb_resources self + 2)
                                = Inr (end_prod self ! i ! r)"
    and ns: "int_at ?tokens ?idx = Inr (nb_successors self ! i)"
    and ls: "length (successors self ! i) = nat (nb_successors self ! i)"
    and su: "\<And>s. s < nat (nb_successors self ! i)
               \<Longrightarrow> int_at ?tokens (?idx + 1 + int s) = Inr (successors self ! i ! s + 1)"
    by (simp_all add: task_loaded_def Let_def)
  have "enough_valid ?tokens (?R + 2 * ?K + 2 + nat (nb_successors self ! i))"
    by (rule enough_validI) (rule task_loaded_token [OF tl R K])
  then have len: "?R + 2 * ?K + 2 + nat (nb_successors self ! i) \<le> length ?tokens"
    by (simp add: enough_valid_def)
  have d': "py_int (?tokens ! 0) = Inr (duration self ! i)"
  proof -
    have "int_at ?tokens (int 0) = Inr (duration self ! i)" using d by simp
    then show ?thesis by (rule int_at_nat(2))
  qed
  have w': "py_int (?tokens ! (r + 1)) = Inr (weight self ! i ! r)" if "r < ?R" for r
  proof -
    have e: "int r + 1 = int (r + 1)" by simp
    have "int_at ?tokens (int (r + 1)) = Inr (weight self ! i ! r)"
      using w [OF that] by (simp only: e)
    then show ?thesis by (rule int_at_nat(2))
  qed
  have c': "py_int (?tokens ! (?R + 1 + 2 * r)) = Inr (start_cons self ! i ! r)"
    if "r < ?K" for r
  proof -
    have e: "2 * int r + nb_resources self + 1 = int (?R + 1 + 2 * r)" using R by simp
    have "int_at ?tokens (int (?R + 1 + 2 * r)) = Inr (start_cons self ! i ! r)"
      using c [OF that] by (simp only: e)
    then show ?thesis by (rule int_at_nat(2))
  qed
  have p': "py_int (?tokens ! (?R + 2 + 2 * r)) = Inr (end_prod self ! i ! r)"
    if "r < ?K" for r
  proof -
    have e: "2 * int r + nb_resources self + 2 = int (?R + 2 + 2 * r)" using R by simp
    have "int_at ?tokens (int (?R + 2 + 2 * r)) = Inr (end_prod self ! i ! r)"
      using p [OF that] by (simp only: e)
    then show ?thesis by (rule int_at_nat(2))
  qed
  have ns': "py_int (?tokens ! (?R + 2 * ?K + 1)) = Inr (nb_successors self ! i)"
  proof -
    have e: "?idx = int (?R + 2 * ?K + 1)" using R K by simp
    have "int_at ?tokens (int (?R + 2 * ?K + 1)) = Inr (nb_successors self ! i)"
      using ns by (simp only: e)
    then show ?thesis by (rule int_at_nat(2))
  qed
  have su': "py_int (?tokens ! (?R + 2 * ?K + 2 + s)) = Inr (successors self ! i ! s + 1)"
    if "s < nat (nb_successors self ! i)" for s
  proof -
    have e: "?idx + 1 + int s = int (?R + 2 * ?K + 2 + s)" using R K by simp
    have "int_at ?tokens (int (?R + 2 * ?K + 2 + s)) = Inr (successors self ! i ! s + 1)"
      using su [OF that] by (simp only: e)
    then show ?thesis by (rule int_at_nat(2))
  qed
  have ex: "start_cons paired_instance = [[10, 30]]" "end_prod paired_instance = [[20, 40]]"
    by (simp_all add: paired_instance_def)
  show ?thesis
    unfolding Let_def
    using len d' lw w' lc c' lp p' ns' ls su' paired_loaded ex by blast
qed

theorem task_line_token_order_witness:
  "load_instance paired_lines = Inr paired_instance
   \<and> 0 \<le> nb_resources paired_instance \<and> 0 \<le> nb_inventories paired_instance
   \<and> 0 < nat (nb_tasks paired_instance)
   \<and> py_split (paired_lines ! 2) = [''3'', ''2'', ''10'', ''20'', ''30'', ''40'', ''2'', ''1'', ''5'']
   \<and> py_int (py_split (paired_lines ! 2) ! 2) = Inr (start_cons paired_instance ! 0 ! 0)
   \<and> py_int (py_split (paired_lines ! 2) ! 3) = Inr (end_prod paired_instance ! 0 ! 0)
   \<and> py_int (py_split (paired_lines ! 2) ! 4) = Inr (start_cons paired_instance ! 0 ! 1)
   \<and> py_int (py_split (paired_lines ! 2) ! 5) = Inr (end_prod paired_instance ! 0 ! 1)
   \<and> py_int (py_split (paired_lines ! 2) ! 8) = Inr (successors paired_instance ! 0 ! 1 + 1)"
proof -
  have h1: "load_instance paired_lines = Inr paired_instance" by (rule paired_loaded)
  have h2: "0 \<le> nb_resources paired_instance" by (simp add: paired_instance_def)
  have h3: "0 \<le> nb_inventories paired_instance" by (simp add: paired_instance_def)
  have h4: "0 < nat (nb_tasks paired_instance)" by (simp add: paired_instance_def)
  have tk: "py_split (paired_lines ! 2)
            = [''3'', ''2'', ''10'', ''20'', ''30'', ''40'', ''2'', ''1'', ''5'']"
    unfolding paired_lines_def by code_simp
  have n: "nat (nb_resources paired_instance) = 1" "nat (nb_inventories paired_instance) = 2"
    "nat (nb_successors paired_instance ! 0) = 2"
    by (simp_all add: paired_instance_def)
  note t = task_line_token_order [OF h1 h2 h3 h4, THEN conjunct1, unfolded Let_def n]
  have c0: "py_int (py_split (paired_lines ! 2) ! 2) = Inr (start_cons paired_instance ! 0 ! 0)"
    using t [THEN conjunct2, THEN conjunct2, THEN conjunct2, THEN conjunct2,
             THEN conjunct2, THEN conjunct1, rule_format, of 0] by (simp add: eval_nat_numeral)
  have c1: "py_int (py_split (paired_lines ! 2) ! 4) = Inr (start_cons paired_instance ! 0 ! 1)"
    using t [THEN conjunct2, THEN conjunct2, THEN conjunct2, THEN conjunct2,
             THEN conjunct2, THEN conjunct1, rule_format, of 1] by (simp add: eval_nat_numeral)
  have p0: "py_int (py_split (paired_lines ! 2) ! 3) = Inr (end_prod paired_instance ! 0 ! 0)"
    using t [THEN conjunct2, THEN conjunct2, THEN conjunct2, THEN conjunct2,
             THEN conjunct2, THEN conjunct2, THEN conjunct2, THEN conjunct1,
             rule_format, of 0] by (simp add: eval_nat_numeral)
  have p1: "py_int (py_split (paired_lines ! 2) ! 5) = Inr (end_prod paired_instance ! 0 ! 1)"
    using t [THEN conjunct2, THEN conjunct2, THEN conjunct2, THEN conjunct2,
             THEN conjunct2, THEN conjunct2, THEN conjunct2, THEN conjunct1,
             rule_format, of 1] by (simp add: eval_nat_numeral)
  have s1: "py_int (py_split (paired_lines ! 2) ! 8)
            = Inr (successors paired_instance ! 0 ! 1 + 1)"
    using t [THEN conjunct2, THEN conjunct2, THEN conjunct2, THEN conjunct2,
             THEN conjunct2, THEN conjunct2, THEN conjunct2, THEN conjunct2,
             THEN conjunct2, THEN conjunct2, rule_format, of 1] by (simp add: eval_nat_numeral)
  show ?thesis
    using h1 h2 h3 h4 tk c0 c1 p0 p1 s1 by blast
qed

text \<open>
  C7, as the specification states it: \<open>evaluate_solution\<close> fails exactly when the length
  of the schedule differs from \<open>nb_tasks\<close>, and every schedule of the right length is
  evaluated without error. The file \<open>empty_lines\<close> declares no task and loads; the empty
  schedule has the right length for it, and \<open>evaluate_solution\<close> raises the
  \<open>ValueError\<close> of \<open>max()\<close> on an empty sequence.
\<close>

theorem shape_check_counterexample:
  "init_problem empty_lines = Inr empty_instance
   \<and> int (length ([] :: int list)) = nb_tasks empty_instance
   \<and> evaluate_solution empty_instance [] = Inl (ValueError ''max() arg is an empty sequence'')"
proof -
  have "int (length ([] :: int list)) = nb_tasks empty_instance"
    by (simp add: empty_instance_def)
  moreover have "evaluate_solution empty_instance []
                 = Inl (ValueError ''max() arg is an empty sequence'')"
    by code_simp
  ultimately show ?thesis using empty_loaded by blast
qed

text \<open>
  C7, amended. For an instance with at least one task, arrays of the declared sizes and
  successors that are task indices: \<open>evaluate_solution\<close> fails if and only if the length
  of the schedule differs from \<open>nb_tasks\<close>; the failure is the \<open>ValueError\<close> of the shape
  check, raised before anything is evaluated, so the schedule is neither truncated nor
  padded; a schedule of the right length is evaluated to a cost. The function only
  reads the instance, so there is no instance state that a call could change.
\<close>

theorem shape_check:
  assumes "shape_ok self" and "successors_in_range self" and "1 \<le> nb_tasks self"
  shows "(is_error (evaluate_solution self solution) \<longleftrightarrow> int (length solution) \<noteq> nb_tasks self)
       \<and> (int (length solution) \<noteq> nb_tasks self
            \<longrightarrow> evaluate_solution self solution = Inl (ValueError shape_message))
       \<and> (int (length solution) = nb_tasks self
            \<longrightarrow> (\<exists>cost. evaluate_solution self solution = Inr cost))"
proof (cases "int (length solution) = nb_tasks self")
  case True
  from evaluate_solution_ok [OF assms(1) True assms(2,3)] True show ?thesis
    by (simp add: is_error_def)
next
  case False
  then show ?thesis by (simp add: evaluate_solution_def is_error_def)
qed

theorem shape_check_witness:
  "shape_ok example_instance \<and> successors_in_range example_instance
   \<and> 1 \<le> nb_tasks example_instance
   \<and> evaluate_solution example_instance [0] = Inl (ValueError shape_message)
   \<and> evaluate_solution example_instance [0, 0, 0] = Inl (ValueError shape_message)
   \<and> \<not> is_error (evaluate_solution example_instance [0, 0])"
proof -
  have h1: "shape_ok example_instance" by (rule init_problem_Inr(1) [OF example_loaded])
  have h2: "successors_in_range example_instance" by (rule example_successors)
  have h3: "1 \<le> nb_tasks example_instance" by (simp add: example_instance_def)
  have n: "nb_tasks example_instance = 2" by (simp add: example_instance_def)
  show ?thesis
    using h1 h2 h3 shape_check [OF h1 h2 h3, of "[0]"] shape_check [OF h1 h2 h3, of "[0, 0, 0]"]
      shape_check [OF h1 h2 h3, of "[0, 0]"]
    by (simp add: n)
qed

text \<open>
  C8. For a file whose first line, if it is well formed, declares non-negative
  resource counts: when the file is not well formed, that is, it has fewer than
  \<open>task_count + 2\<close> lines, or a line has fewer tokens than its position requires, or one
  of the required tokens is not an integer, then \<open>_load_instance\<close> raises an exception
  (\<open>IndexError\<close> or \<open>ValueError\<close>, the only two of the model), and so does \<open>__init__\<close>:
  the result is the exception alone, no instance is returned.
\<close>

theorem load_fails_on_malformed_file:
  assumes "header_well_formed lines \<longrightarrow> 0 \<le> declared lines 1 \<and> 0 \<le> declared lines 2"
    and "\<not> file_well_formed lines"
  shows "is_error (load_instance lines) \<and> is_error (init_problem lines)
       \<and> (\<forall>self. load_instance lines \<noteq> Inr self \<and> init_problem lines \<noteq> Inr self)"
proof -
  have no: "load_instance lines \<noteq> Inr self" for self
  proof
    assume ld: "load_instance lines = Inr self"
    note H = load_instance_header [OF ld]
    have "0 \<le> nb_resources self" "0 \<le> nb_inventories self"
      using assms(1) H by simp_all
    from load_instance_well_formed [OF ld this] assms(2) show False by contradiction
  qed
  then obtain e where e: "load_instance lines = Inl e"
    by (cases "load_instance lines") auto
  then have "init_problem lines = Inl e" by (simp add: init_problem_def)
  then show ?thesis using e no by (simp add: is_error_def)
qed

theorem load_fails_on_malformed_file_witness:
  "header_well_formed truncated_lines
   \<and> 0 \<le> declared truncated_lines 1 \<and> 0 \<le> declared truncated_lines 2
   \<and> \<not> file_well_formed truncated_lines
   \<and> is_error (load_instance truncated_lines) \<and> is_error (init_problem truncated_lines)
   \<and> \<not> file_well_formed [''1 0 0'', '''', ''3'']
   \<and> is_error (load_instance [''1 0 0'', '''', ''3''])
   \<and> \<not> file_well_formed [''1 0 0'', '''', ''x 0'']
   \<and> is_error (load_instance [''1 0 0'', '''', ''x 0''])"
proof -
  have h0: "header_well_formed truncated_lines"
    "0 \<le> declared truncated_lines 1" "0 \<le> declared truncated_lines 2"
    by code_simp+
  then have h1: "header_well_formed truncated_lines
            \<longrightarrow> 0 \<le> declared truncated_lines 1 \<and> 0 \<le> declared truncated_lines 2"
    by blast
  have h2: "\<not> file_well_formed truncated_lines" by code_simp
  have g1: "header_well_formed [''1 0 0'', '''', ''3'']
            \<longrightarrow> 0 \<le> declared [''1 0 0'', '''', ''3''] 1 \<and> 0 \<le> declared [''1 0 0'', '''', ''3''] 2"
    by code_simp
  have g2: "\<not> file_well_formed [''1 0 0'', '''', ''3'']" by code_simp
  have k1: "header_well_formed [''1 0 0'', '''', ''x 0'']
            \<longrightarrow> 0 \<le> declared [''1 0 0'', '''', ''x 0''] 1
              \<and> 0 \<le> declared [''1 0 0'', '''', ''x 0''] 2"
    by code_simp
  have k2: "\<not> file_well_formed [''1 0 0'', '''', ''x 0'']" by code_simp
  show ?thesis
    using h0 h2 g2 k2 load_fails_on_malformed_file [OF h1 h2]
      load_fails_on_malformed_file [OF g1 g2] load_fails_on_malformed_file [OF k1 k2]
    by blast
qed

text \<open>
  C9, as the specification states it: the returned cost equals the makespan exactly
  when no constraint violation occurs. Two schedules are charged nothing although a
  constraint is violated at a time that the loops over \<open>range(makespan)\<close> do not visit.
  In \<open>late_consumer_instance\<close> with the schedule \<open>[0, 1]\<close> the makespan is 1, the cost
  is 1, and the task that starts at time 1 takes 5 from a stock of 0: the level at
  time 1 is -5. In \<open>overlap_instance\<close> with the schedule \<open>[-1, -1]\<close> the makespan is 0,
  the cost is 0, and at time -1 the usage is 2 against a capacity of 1.
\<close>

theorem cost_at_least_makespan_counterexample:
  "init_problem late_consumer_lines = Inr late_consumer_instance
   \<and> compute_makespan late_consumer_instance [0, 1] = Inr 1
   \<and> evaluate_solution late_consumer_instance [0, 1] = Inr 1
   \<and> inventory_at late_consumer_instance [0, 1] 1 0 = Inr (- 5)
   \<and> level_spec late_consumer_instance [0, 1] 1 0 = - 5
   \<and> compute_makespan overlap_instance [- 1, - 1] = Inr 0
   \<and> evaluate_solution overlap_instance [- 1, - 1] = Inr 0
   \<and> usage_at overlap_instance [- 1, - 1] (- 1) 0 = Inr 2
   \<and> usage_spec overlap_instance [- 1, - 1] (- 1) 0 = 2
   \<and> capacity overlap_instance ! 0 = 1"
proof -
  have "compute_makespan late_consumer_instance [0, 1] = Inr 1"
    "evaluate_solution late_consumer_instance [0, 1] = Inr 1"
    "inventory_at late_consumer_instance [0, 1] 1 0 = Inr (- 5)"
    "level_spec late_consumer_instance [0, 1] 1 0 = - 5"
    "compute_makespan overlap_instance [- 1, - 1] = Inr 0"
    "evaluate_solution overlap_instance [- 1, - 1] = Inr 0"
    "usage_at overlap_instance [- 1, - 1] (- 1) 0 = Inr 2"
    "usage_spec overlap_instance [- 1, - 1] (- 1) 0 = 2"
    "capacity overlap_instance ! 0 = 1"
    by code_simp+
  then show ?thesis using late_consumer_loaded by blast
qed

text \<open>
  C9, amended. For an instance with at least one task, arrays of the declared sizes,
  successors that are task indices and the penalty multiplier that \<open>__init__\<close> sets, and
  a schedule with one start time per task: the penalty starts at 0 and never decreases
  through the three loops of \<open>evaluate_solution\<close>, so the returned cost is at least the
  makespan. The cost equals the makespan whenever no constraint is violated (no
  successor starts before its predecessor finishes, and at every integer time no usage
  exceeds its capacity and no inventory level is below zero). The cost exceeds the
  makespan whenever a precedence violation occurs, or a renewable-resource or inventory
  violation occurs at an integer time of \<open>[0, makespan)\<close>; these are the violations
  that \<open>no_violation\<close> excludes, and the cost equals the makespan exactly when it holds.
\<close>

theorem cost_at_least_makespan:
  assumes "shape_ok self" and "int (length solution) = nb_tasks self"
    and "successors_in_range self" and "1 \<le> nb_tasks self"
    and "penalty_multiplier self = 1000000"
  shows "\<exists>p1 p2 p3.
           precedence_loop self solution 0 = Inr p1
         \<and> renewable_loop self solution (makespan_spec self solution) p1 = Inr p2
         \<and> inventory_loop self solution (makespan_spec self solution) p2 = Inr p3
         \<and> 0 \<le> p1 \<and> p1 \<le> p2 \<and> p2 \<le> p3
         \<and> evaluate_solution self solution = Inr (makespan_spec self solution + 1000000 * p3)
         \<and> makespan_spec self solution \<le> makespan_spec self solution + 1000000 * p3
         \<and> (no_precedence_violation self solution
              \<and> (\<forall>t. \<forall>r<nat (nb_resources self).
                     usage_spec self solution t r \<le> capacity self ! r)
              \<and> (\<forall>t. \<forall>r<nat (nb_inventories self). 0 \<le> level_spec self solution t r)
              \<longrightarrow> makespan_spec self solution + 1000000 * p3 = makespan_spec self solution)
         \<and> (\<not> no_violation self solution
              \<longrightarrow> makespan_spec self solution < makespan_spec self solution + 1000000 * p3)
         \<and> (makespan_spec self solution + 1000000 * p3 = makespan_spec self solution
              \<longleftrightarrow> no_violation self solution)"
proof -
  let ?m = "makespan_spec self solution"
  let ?p = "precedence_penalty_spec self solution"
  let ?r = "renewable_penalty_spec self solution"
  let ?v = "inventory_penalty_spec self solution"
  have nn: "0 \<le> ?p" "0 \<le> ?r" "0 \<le> ?v"
    by (rule precedence_penalty_nonneg renewable_penalty_nonneg inventory_penalty_nonneg)+
  have tot: "total_penalty_spec self solution = ?p + ?r + ?v"
    by (simp add: total_penalty_spec_def)
  have zero: "?p + ?r + ?v = 0 \<longleftrightarrow> no_violation self solution"
    using nn
    by (auto simp: no_violation_def precedence_penalty_zero_iff [symmetric]
        renewable_penalty_zero_iff [symmetric] inventory_penalty_zero_iff [symmetric])
  have eq: "?m + 1000000 * (?p + ?r + ?v) = ?m \<longleftrightarrow> no_violation self solution"
  proof -
    have "?m + 1000000 * (?p + ?r + ?v) = ?m \<longleftrightarrow> ?p + ?r + ?v = 0" by auto
    then show ?thesis using zero by blast
  qed
  have le: "?m \<le> ?m + 1000000 * (?p + ?r + ?v)" using nn by simp
  have ev: "evaluate_solution self solution = Inr (?m + 1000000 * (?p + ?r + ?v))"
    using evaluate_solution_ok [OF assms(1-4)] assms(5) by (simp add: tot)
  note lp = penalty_loops [OF assms(1-3)]
  show ?thesis
  proof (intro exI conjI)
    show "precedence_loop self solution 0 = Inr ?p" by (rule lp(1))
    show "renewable_loop self solution ?m ?p = Inr (?p + ?r)" by (rule lp(2))
    show "inventory_loop self solution ?m (?p + ?r) = Inr (?p + ?r + ?v)"
      using lp(3) by (simp add: tot)
    show "0 \<le> ?p" by (rule nn)
    show "?p \<le> ?p + ?r" using nn by simp
    show "?p + ?r \<le> ?p + ?r + ?v" using nn by simp
    show "evaluate_solution self solution = Inr (?m + 1000000 * (?p + ?r + ?v))"
      by (rule ev)
    show "?m \<le> ?m + 1000000 * (?p + ?r + ?v)" by (rule le)
    show "no_precedence_violation self solution
          \<and> (\<forall>t. \<forall>r<nat (nb_resources self).
                 usage_spec self solution t r \<le> capacity self ! r)
          \<and> (\<forall>t. \<forall>r<nat (nb_inventories self). 0 \<le> level_spec self solution t r)
          \<longrightarrow> ?m + 1000000 * (?p + ?r + ?v) = ?m"
    proof
      assume a: "no_precedence_violation self solution
          \<and> (\<forall>t. \<forall>r<nat (nb_resources self).
                 usage_spec self solution t r \<le> capacity self ! r)
          \<and> (\<forall>t. \<forall>r<nat (nb_inventories self). 0 \<le> level_spec self solution t r)"
      have "no_violation self solution"
        by (rule never_violated_no_violation) (use a in blast)+
      then show "?m + 1000000 * (?p + ?r + ?v) = ?m" using eq by blast
    qed
    show "\<not> no_violation self solution \<longrightarrow> ?m < ?m + 1000000 * (?p + ?r + ?v)"
      using eq le by linarith
    show "?m + 1000000 * (?p + ?r + ?v) = ?m \<longleftrightarrow> no_violation self solution"
      by (rule eq)
  qed
qed

theorem cost_at_least_makespan_witness:
  "shape_ok example_instance \<and> int (length [0, 0 :: int]) = nb_tasks example_instance
   \<and> int (length [0, 1 :: int]) = nb_tasks example_instance
   \<and> successors_in_range example_instance \<and> 1 \<le> nb_tasks example_instance
   \<and> penalty_multiplier example_instance = 1000000
   \<and> \<not> no_violation example_instance [0, 0]
   \<and> (\<exists>p. evaluate_solution example_instance [0, 0]
            = Inr (makespan_spec example_instance [0, 0] + 1000000 * p)
          \<and> makespan_spec example_instance [0, 0]
            < makespan_spec example_instance [0, 0] + 1000000 * p)
   \<and> no_precedence_violation example_instance [0, 1]
   \<and> evaluate_solution example_instance [0, 1] = Inr (makespan_spec example_instance [0, 1])"
proof -
  have h1: "shape_ok example_instance" by (rule init_problem_Inr(1) [OF example_loaded])
  have h2: "int (length [0, 0 :: int]) = nb_tasks example_instance"
    by (simp add: example_instance_def)
  have h2': "int (length [0, 1 :: int]) = nb_tasks example_instance"
    by (simp add: example_instance_def)
  have h3: "successors_in_range example_instance" by (rule example_successors)
  have h4: "1 \<le> nb_tasks example_instance" by (simp add: example_instance_def)
  have h5: "penalty_multiplier example_instance = 1000000"
    by (simp add: example_instance_def)
  have nv: "\<not> no_violation example_instance [0, 0]" by code_simp
  from cost_at_least_makespan [OF h1 h2 h3 h4 h5] obtain p where
    ev: "evaluate_solution example_instance [0, 0]
         = Inr (makespan_spec example_instance [0, 0] + 1000000 * p)"
    and gt: "\<not> no_violation example_instance [0, 0]
             \<longrightarrow> makespan_spec example_instance [0, 0]
                 < makespan_spec example_instance [0, 0] + 1000000 * p"
    by blast
  have bad: "\<exists>p. evaluate_solution example_instance [0, 0]
                  = Inr (makespan_spec example_instance [0, 0] + 1000000 * p)
                \<and> makespan_spec example_instance [0, 0]
                  < makespan_spec example_instance [0, 0] + 1000000 * p"
    using ev gt nv by blast
  have f1: "no_precedence_violation example_instance [0, 1]"
    by (rule example_never_violated(1))
  have f2: "\<forall>t. \<forall>r<nat (nb_resources example_instance).
              usage_spec example_instance [0, 1] t r \<le> capacity example_instance ! r"
    using example_never_violated(2) by blast
  have f3: "\<forall>t. \<forall>r<nat (nb_inventories example_instance).
              0 \<le> level_spec example_instance [0, 1] t r"
    using example_never_violated(3) by blast
  from cost_at_least_makespan [OF h1 h2' h3 h4 h5] obtain q where
    ev': "evaluate_solution example_instance [0, 1]
          = Inr (makespan_spec example_instance [0, 1] + 1000000 * q)"
    and imp: "no_precedence_violation example_instance [0, 1]
              \<and> (\<forall>t. \<forall>r<nat (nb_resources example_instance).
                     usage_spec example_instance [0, 1] t r \<le> capacity example_instance ! r)
              \<and> (\<forall>t. \<forall>r<nat (nb_inventories example_instance).
                     0 \<le> level_spec example_instance [0, 1] t r)
              \<longrightarrow> makespan_spec example_instance [0, 1] + 1000000 * q
                  = makespan_spec example_instance [0, 1]"
    by blast
  have good: "evaluate_solution example_instance [0, 1]
              = Inr (makespan_spec example_instance [0, 1])"
    using ev' imp f1 f2 f3 by simp
  show ?thesis
    using h1 h2 h2' h3 h4 h5 nv bad f1 good by blast
qed

text \<open>
  C10. \<open>evaluate_solution\<close> has no check on the sign of the start times: for an
  instance with at least one task, arrays of the declared sizes and successors that
  are task indices, every list of \<open>nb_tasks\<close> integers is evaluated to a cost. With a
  single task of duration 3 and the schedule \<open>[-5]\<close>, the makespan and the returned
  cost are both -2.
\<close>

theorem evaluation_accepts_any_integers:
  assumes "shape_ok self" and "int (length solution) = nb_tasks self"
    and "successors_in_range self" and "1 \<le> nb_tasks self"
  shows "(\<exists>cost. evaluate_solution self solution = Inr cost)
       \<and> compute_makespan single_instance [- 5] = Inr (- 2)
       \<and> evaluate_solution single_instance [- 5] = Inr (- 2)"
proof -
  have "compute_makespan single_instance [- 5] = Inr (- 2)"
    "evaluate_solution single_instance [- 5] = Inr (- 2)"
    by code_simp+
  then show ?thesis
    using evaluate_solution_ok [OF assms] by simp
qed

theorem evaluation_accepts_any_integers_witness:
  "shape_ok example_instance \<and> int (length [- 7, - 9 :: int]) = nb_tasks example_instance
   \<and> successors_in_range example_instance \<and> 1 \<le> nb_tasks example_instance
   \<and> (\<exists>cost. evaluate_solution example_instance [- 7, - 9] = Inr cost)"
proof -
  have h1: "shape_ok example_instance" by (rule init_problem_Inr(1) [OF example_loaded])
  have h2: "int (length [- 7, - 9 :: int]) = nb_tasks example_instance"
    by (simp add: example_instance_def)
  have h3: "successors_in_range example_instance" by (rule example_successors)
  have h4: "1 \<le> nb_tasks example_instance" by (simp add: example_instance_def)
  show ?thesis
    using h1 h2 h3 h4 evaluation_accepts_any_integers [OF h1 h2 h3 h4, THEN conjunct1]
    by blast
qed

end
